theory Spec2Isabelle
  imports Complex_Main "HOL-Library.Sublist" "HOL-Library.AList"
begin

section \<open>Python values used by molden\_to\_abins.py\<close>

text \<open>
  Exceptions are values. \<open>ValueError\<close> carries a short message: the one raised by
  \<open>_check_first_line\<close> carries the text of the source, those raised by the builtins
  (\<open>float\<close>, \<open>int\<close>, tuple unpacking, \<open>numpy.asarray\<close>) carry a tag naming the builtin.
  \<open>KeyError\<close> carries the missing key.
\<close>

datatype error =
    ValueError string
  | KeyError string
  | AttributeError
  | TypeError
  | IndexError

text \<open>
  Text is modelled for ASCII input: a \<open>char\<close> is one code point below 128.
  \<open>isspace\<close> is the ASCII part of what \<open>str.strip()\<close> and \<open>str.split()\<close> treat as
  whitespace (tab, line feed, vertical tab, form feed, carriage return, the four
  separators 0x1C..0x1F and the space).
\<close>

definition isspace :: "char \<Rightarrow> bool" where
  "isspace c = (c \<in> set [CHR 0x09, CHR 0x0A, CHR 0x0B, CHR 0x0C, CHR 0x0D,
                           CHR 0x1C, CHR 0x1D, CHR 0x1E, CHR 0x1F, CHR 0x20])"

definition strip :: "string \<Rightarrow> string" where
  "strip s = rev (dropWhile isspace (rev (dropWhile isspace s)))"

text \<open>\<open>line.split()\<close> with no argument: the maximal runs of non-whitespace characters.\<close>

fun split_from :: "string \<Rightarrow> string \<Rightarrow> string list" where
  "split_from w [] = (if w = [] then [] else [w])"
| "split_from w (c # cs) =
     (if isspace c then (if w = [] then split_from [] cs else w # split_from [] cs)
      else split_from (w @ [c]) cs)"

definition split_ws :: "string \<Rightarrow> string list" where
  "split_ws s = split_from [] s"

text \<open>
  A dictionary is an association list in insertion order with unique keys: a lookup is
  \<open>map_of\<close>, an assignment \<open>d[k] = v\<close> is \<open>AList.update k v d\<close>, which replaces the value
  of an existing key in place and appends a new key at the end, as Python's dict does.
\<close>

type_synonym ('k, 'v) dict = "('k \<times> 'v) list"

section \<open>The header check\<close>

definition molden_header :: string where
  "molden_header = ''[Molden Format]''"

definition missing_header_msg :: string where
  "missing_header_msg =
     ''File is missing [Molden Format] header. Are you sure this is a Molden file?''"

text \<open>
  The stream \<open>fd\<close> is the list of the lines not yet read. \<open>fd.readline()\<close> returns the
  next line and advances, and returns the empty string at the end of the stream.
\<close>

fun readline :: "string list \<Rightarrow> string \<times> string list" where
  "readline [] = ([], [])"
| "readline (l # fd) = (l, fd)"

definition check_first_line :: "string list \<Rightarrow> error + string list" where
  "check_first_line fd =
     (case readline fd of (l, fd') \<Rightarrow>
        if \<not> (strip l = molden_header) then Inl (ValueError missing_header_msg)
        else Inr fd')"

section \<open>The block reader\<close>

text \<open>
  \<open>header_re.match(line)\<close> for the pattern \<open>\[[\w\-]+\]\s*(AU|Angs)?\<close>. \<open>match\<close> anchors at
  the start of the line only, and the tail \<open>\s*(AU|Angs)?\<close> matches the empty string, so
  the line matches exactly when it starts with an opening bracket, one or more
  characters of \<open>[\w\-]\<close> and a closing bracket. The closing bracket is not in
  \<open>[\w\-]\<close>, so the run of name characters must end right before it.
\<close>

definition is_name_char :: "char \<Rightarrow> bool" where
  "is_name_char c =
     (c \<in> set ''abcdefghijklmnopqrstuvwxyzABCDEFGHIJKLMNOPQRSTUVWXYZ0123456789_-'')"

definition header_match :: "string \<Rightarrow> bool" where
  "header_match line =
     (case line of
        [] \<Rightarrow> False
      | c # cs \<Rightarrow>
          c = CHR ''['' \<and> takeWhile is_name_char cs \<noteq> [] \<and>
          (case dropWhile is_name_char cs of [] \<Rightarrow> False | d # _ \<Rightarrow> d = CHR '']''))"

text \<open>
  \<open>current_header\<close> and \<open>current_block\<close> start as Python's \<open>None\<close>, and the last
  statement of \<open>_read_blocks\<close> stores them whatever they are: keys are
  \<open>string option\<close> and values are \<open>string list option\<close>, with \<open>None\<close> for Python's \<open>None\<close>.
\<close>

type_synonym raw_blocks = "(string option, string list option) dict"

text \<open>\<open>if current_header:\<close> is false for \<open>None\<close> and for the empty string.\<close>

fun truthy :: "string option \<Rightarrow> bool" where
  "truthy None = False"
| "truthy (Some s) = (s \<noteq> [])"

text \<open>
  The body of the \<open>for\<close> loop, over the lines already stripped. In the \<open>else\<close> branch
  \<open>current_block.append(line)\<close> on \<open>None\<close> raises \<open>AttributeError\<close>.
\<close>

fun read_loop ::
  "string list \<Rightarrow> raw_blocks \<Rightarrow> string option \<Rightarrow> string list option \<Rightarrow>
   error + (raw_blocks \<times> string option \<times> string list option)" where
  "read_loop [] raw_data current_header current_block =
     Inr (raw_data, current_header, current_block)"
| "read_loop (line # rest) raw_data current_header current_block =
     (if header_match line then
        read_loop rest
          (if truthy current_header
           then AList.update current_header current_block raw_data
           else raw_data)
          (Some line) (Some [])
      else
        (case current_block of
           None \<Rightarrow> Inl AttributeError
         | Some b \<Rightarrow> read_loop rest raw_data current_header (Some (b @ [line]))))"

definition read_blocks :: "string list \<Rightarrow> error + raw_blocks" where
  "read_blocks fd =
     (case read_loop (map strip fd) [] None None of
        Inl e \<Rightarrow> Inl e
      | Inr (raw_data, current_header, current_block) \<Rightarrow>
          Inr (AList.update current_header current_block raw_data))"

section \<open>External collaborators\<close>

text \<open>
  The builtins \<open>int\<close> and \<open>float\<close>, the table \<open>ase.data.atomic_masses\<close> and the constant
  \<open>ase.units.Bohr\<close> are not code of the repository: they are parameters of the model.
  A parser returns \<open>None\<close> where the builtin raises \<open>ValueError\<close>. The type \<open>'f\<close> stands
  for Python's \<open>float\<close>; the model uses its zero, its one and its multiplication only,
  and assumes no law of arithmetic about them.
\<close>

record 'f externals =
  py_int :: "string \<Rightarrow> int option"
  py_float :: "string \<Rightarrow> 'f option"
  atomic_masses :: "'f list"
  Bohr :: 'f

fun and_then :: "error + 'a \<Rightarrow> ('a \<Rightarrow> error + 'b) \<Rightarrow> error + 'b" where
  "and_then (Inl e) f = Inl e"
| "and_then (Inr x) f = f x"

definition to_int :: "'f externals \<Rightarrow> string \<Rightarrow> error + int" where
  "to_int E s = (case py_int E s of None \<Rightarrow> Inl (ValueError ''int'') | Some i \<Rightarrow> Inr i)"

definition to_float :: "'f externals \<Rightarrow> string \<Rightarrow> error + 'f" where
  "to_float E s = (case py_float E s of None \<Rightarrow> Inl (ValueError ''float'') | Some v \<Rightarrow> Inr v)"

text \<open>
  \<open>atomic_masses[proton_number]\<close>: a negative index counts from the end, an index out
  of range raises \<open>IndexError\<close>.
\<close>

definition np_index :: "'a list \<Rightarrow> int \<Rightarrow> error + 'a" where
  "np_index table i =
     (if 0 \<le> i \<and> i < int (length table) then Inr (table ! nat i)
      else if i < 0 \<and> - int (length table) \<le> i then Inr (table ! nat (int (length table) + i))
      else Inl IndexError)"

text \<open>\<open>raw_data[key]\<close> for a string key.\<close>

definition dict_get :: "raw_blocks \<Rightarrow> string \<Rightarrow> error + string list option" where
  "dict_get raw_data k =
     (case map_of raw_data (Some k) of None \<Rightarrow> Inl (KeyError k) | Some v \<Rightarrow> Inr v)"

text \<open>The decimal text of an integer, as an f-string formats it.\<close>

definition digit_char :: "nat \<Rightarrow> char" where
  "digit_char n = ''0123456789'' ! n"

function str_nat :: "nat \<Rightarrow> string" where
  "str_nat n = (if n < 10 then [digit_char n] else str_nat (n div 10) @ [digit_char (n mod 10)])"
  by pat_completeness auto
termination
  by (relation "measure id") auto

declare str_nat.simps [simp del]

definition str_int :: "int \<Rightarrow> string" where
  "str_int i = (if i < 0 then CHR ''-'' # str_nat (nat (- i)) else str_nat (nat i))"

section \<open>The geometry extractor\<close>

text \<open>
  The field \<open>sort\<close> of the source is \<open>sort_field\<close> here, and the variable \<open>symbol\<close> is
  \<open>symbol'\<close>.
\<close>

record 'f AtomData =
  coord :: "'f list"
  mass :: 'f
  sort_field :: int
  symbol :: string

definition bohr_to_ang :: "'f::times externals \<Rightarrow> 'f list \<Rightarrow> 'f list" where
  "bohr_to_ang E c = map (\<lambda>x. x * Bohr E) c"

definition parse_atom_line ::
  "'f externals \<Rightarrow> string \<Rightarrow> error + (string \<times> int \<times> int \<times> 'f \<times> 'f \<times> 'f)" where
  "parse_atom_line E line =
     (case split_ws line of
        [symbol', index, proton_number, x, y, z] \<Rightarrow>
          and_then (to_int E index) (\<lambda>i.
          and_then (to_int E proton_number) (\<lambda>p.
          and_then (to_float E x) (\<lambda>fx.
          and_then (to_float E y) (\<lambda>fy.
          and_then (to_float E z) (\<lambda>fz.
          Inr (symbol', i, p, fx, fy, fz))))))
      | _ \<Rightarrow> Inl (ValueError ''unpack''))"

text \<open>One step of the dict comprehension: the key and the record built from a line.\<close>

definition atom_item :: "'f externals \<Rightarrow> string \<Rightarrow> error + (string \<times> 'f AtomData)" where
  "atom_item E line =
     and_then (parse_atom_line E line) (\<lambda>(symbol', index, proton_number, x, y, z).
     and_then (np_index (atomic_masses E) proton_number) (\<lambda>m.
     Inr (''atom_'' @ str_int (index - 1),
          \<lparr>coord = [x, y, z], mass = m, sort_field = index - 1, symbol = symbol'\<rparr>)))"

fun atoms_comprehension ::
  "'f externals \<Rightarrow> string list \<Rightarrow> (string, 'f AtomData) dict \<Rightarrow>
   error + (string, 'f AtomData) dict" where
  "atoms_comprehension E [] atoms_data = Inr atoms_data"
| "atoms_comprehension E (line # rest) atoms_data =
     (case atom_item E line of
        Inl e \<Rightarrow> Inl e
      | Inr (k, v) \<Rightarrow> atoms_comprehension E rest (AList.update k v atoms_data))"

text \<open>The components of a parsed atom line.\<close>

definition line_symbol :: "string \<times> int \<times> int \<times> 'f \<times> 'f \<times> 'f \<Rightarrow> string" where
  "line_symbol p = fst p"

definition line_index :: "string \<times> int \<times> int \<times> 'f \<times> 'f \<times> 'f \<Rightarrow> int" where
  "line_index p = fst (snd p)"

definition line_proton :: "string \<times> int \<times> int \<times> 'f \<times> 'f \<times> 'f \<Rightarrow> int" where
  "line_proton p = fst (snd (snd p))"

text \<open>Lines 66 to 71: the Bohr section when present, else the Angstrom section.\<close>

definition select_atoms :: "raw_blocks \<Rightarrow> error + (string list option \<times> bool)" where
  "select_atoms raw_data =
     (if map_of raw_data (Some ''[Atoms] AU'') \<noteq> None
      then and_then (dict_get raw_data ''[Atoms] AU'') (\<lambda>ls. Inr (ls, True))
      else and_then (dict_get raw_data ''[Atoms] Angs'') (\<lambda>ls. Inr (ls, False)))"

text \<open>The body of the loop over \<open>atoms_data.values()\<close>: the record keeps its key.\<close>

definition convert_coord :: "'f::times externals \<Rightarrow> string \<times> 'f AtomData \<Rightarrow> string \<times> 'f AtomData" where
  "convert_coord E item = (fst item, (snd item)\<lparr>coord := bohr_to_ang E (coord (snd item))\<rparr>)"

text \<open>Iterating over \<open>None\<close> raises \<open>TypeError\<close>.\<close>

definition parse_atoms_data ::
  "'f::times externals \<Rightarrow> raw_blocks \<Rightarrow> error + (string, 'f AtomData) dict" where
  "parse_atoms_data E raw_data =
     and_then (select_atoms raw_data) (\<lambda>(raw_atom_lines, bohr_units).
       case raw_atom_lines of
         None \<Rightarrow> Inl TypeError
       | Some ls \<Rightarrow>
           and_then (atoms_comprehension E ls []) (\<lambda>atoms_data.
           Inr (if bohr_units then map (convert_coord E) atoms_data else atoms_data)))"

section \<open>The mode extractor\<close>

record 'f KPointsData =
  frequencies :: "'f list list"
  atomic_displacements :: "'f list list list list"
  weights :: "'f list"
  k_vectors :: "'f list list"
  unit_cell :: "'f list list"

text \<open>The \<open>else\<close> branch of the loop: three components, each followed by a zero.\<close>

definition mode_line :: "'f::zero externals \<Rightarrow> string \<Rightarrow> error + 'f list" where
  "mode_line E line =
     (case split_ws line of
        [x, y, z] \<Rightarrow>
          and_then (to_float E x) (\<lambda>fx.
          and_then (to_float E y) (\<lambda>fy.
          and_then (to_float E z) (\<lambda>fz.
          Inr [fx, 0, fy, 0, fz, 0])))
      | _ \<Rightarrow> Inl (ValueError ''unpack''))"

fun modes_loop ::
  "'f::zero externals \<Rightarrow> string list \<Rightarrow> 'f list list list \<Rightarrow> 'f list list \<Rightarrow>
   error + ('f list list list \<times> 'f list list)" where
  "modes_loop E [] modes_array current_mode_data = Inr (modes_array, current_mode_data)"
| "modes_loop E (line # rest) modes_array current_mode_data =
     (if sublist ''vibration'' line then
        (if current_mode_data \<noteq> []
         then modes_loop E rest (modes_array @ [current_mode_data]) []
         else modes_loop E rest modes_array current_mode_data)
      else
        (case mode_line E line of
           Inl e \<Rightarrow> Inl e
         | Inr v \<Rightarrow> modes_loop E rest modes_array (current_mode_data @ [v])))"

text \<open>
  An array is represented by the nested list that \<open>tolist()\<close> returns for it.
  \<open>np.asarray(..., dtype=float)\<close> of a list of lists of lists of numbers raises
  \<open>ValueError\<close> unless the lists at each depth have one length. \<open>np.expand_dims(a, 0)\<close>
  wraps the array in an axis of length one. \<open>swapaxes(1, 2)\<close> needs three axes: the
  array of an empty list has shape \<open>(0,)\<close>, hence \<open>(1, 0)\<close> after the expansion, and
  numpy raises \<open>AxisError\<close>, a subclass of \<open>ValueError\<close>.
\<close>

definition same_length :: "'a list list \<Rightarrow> bool" where
  "same_length xss = (case xss of [] \<Rightarrow> True | xs # _ \<Rightarrow> list_all (\<lambda>ys. length ys = length xs) xss)"

definition np_asarray :: "'f list list list \<Rightarrow> error + 'f list list list" where
  "np_asarray a =
     (if same_length a \<and> same_length (concat a) then Inr a
      else Inl (ValueError ''inhomogeneous shape''))"

definition expand_dims :: "'f list list list \<Rightarrow> 'f list list list list" where
  "expand_dims a = [a]"

definition swap_block :: "'f list list list \<Rightarrow> error + 'f list list list" where
  "swap_block b =
     (case b of
        [] \<Rightarrow> Inl (ValueError ''axis'')
      | g # _ \<Rightarrow> Inr (map (\<lambda>i. map (\<lambda>g'. g' ! i) b) [0..<length g]))"

fun swapaxes :: "'f list list list list \<Rightarrow> error + 'f list list list list" where
  "swapaxes [] = Inr []"
| "swapaxes (b # bs) =
     and_then (swap_block b) (\<lambda>b'. and_then (swapaxes bs) (\<lambda>bs'. Inr (b' # bs')))"

definition parse_displacements ::
  "'f::zero externals \<Rightarrow> raw_blocks \<Rightarrow> error + 'f list list list list" where
  "parse_displacements E raw_data =
     and_then (dict_get raw_data ''[FR-NORM-COORD]'') (\<lambda>section.
       case section of
         None \<Rightarrow> Inl TypeError
       | Some ls \<Rightarrow>
           and_then (modes_loop E ls [] []) (\<lambda>(modes_array, current_mode_data).
           and_then (np_asarray (modes_array @ [current_mode_data])) (\<lambda>arr.
           swapaxes (expand_dims arr))))"

text \<open>\<open>list(map(float, lines))\<close>: the first line that does not parse raises.\<close>

fun floats :: "'f externals \<Rightarrow> string list \<Rightarrow> error + 'f list" where
  "floats E [] = Inr []"
| "floats E (l # ls) =
     and_then (to_float E l) (\<lambda>v. and_then (floats E ls) (\<lambda>vs. Inr (v # vs)))"

definition parse_k_points_data ::
  "'f::{zero,one} externals \<Rightarrow> raw_blocks \<Rightarrow> error + 'f KPointsData" where
  "parse_k_points_data E raw_data =
     and_then (dict_get raw_data ''[FREQ]'') (\<lambda>section.
       case section of
         None \<Rightarrow> Inl TypeError
       | Some ls \<Rightarrow>
           and_then (floats E ls) (\<lambda>fs.
           and_then (parse_displacements E raw_data) (\<lambda>displacements.
           Inr \<lparr>frequencies = [fs],
                atomic_displacements = displacements,
                weights = [1],
                k_vectors = [[0, 0, 0]],
                unit_cell = [[0, 0, 0], [0, 0, 0], [0, 0, 0]]\<rparr>)))"

section \<open>The conversion\<close>

record 'f OutputData =
  k_points_data :: "'f KPointsData"
  atoms_data :: "(string, 'f AtomData) dict"
  abins_class :: string
  mantid_version :: string

text \<open>
  The body of \<open>main\<close> from the opened file to \<open>output_data\<close>; the stream is the list of
  the lines of the file.
\<close>

definition convert :: "'f::{zero,one,times} externals \<Rightarrow> string list \<Rightarrow> error + 'f OutputData" where
  "convert E fd =
     and_then (check_first_line fd) (\<lambda>fd'.
     and_then (read_blocks fd') (\<lambda>raw_data.
     and_then (parse_atoms_data E raw_data) (\<lambda>atoms.
     and_then (parse_k_points_data E raw_data) (\<lambda>k_points.
     Inr \<lparr>k_points_data = k_points,
          atoms_data = atoms,
          abins_class = ''AbinsData'',
          mantid_version = ''6.9''\<rparr>))))"

section \<open>A sample instance of the external collaborators\<close>

text \<open>
  For evaluating the model on concrete files: numbers are rationals, \<open>sample_int\<close> and
  \<open>sample_float\<close> read the plain decimal literals (an optional minus sign, digits, and
  for \<open>sample_float\<close> an optional point followed by digits) and reject every other text,
  the table of masses has the entries for proton numbers 0 to 8 rounded to three
  places, and the Bohr radius is rounded to four places. A literal is read as the exact
  rational it denotes, where Python reads the nearest double; the texts the examples
  below rely on being rejected are rejected by Python as well.
\<close>

definition digits_value :: "string \<Rightarrow> nat option" where
  "digits_value s =
     (if s \<noteq> [] \<and> list_all (\<lambda>c. c \<in> set ''0123456789'') s
      then Some (foldl (\<lambda>a c. 10 * a + (of_char c - 48)) 0 s)
      else None)"

definition sample_int :: "string \<Rightarrow> int option" where
  "sample_int s =
     (case s of
        [] \<Rightarrow> None
      | c # r \<Rightarrow>
          if c = CHR ''-'' then map_option (\<lambda>n. - int n) (digits_value r)
          else map_option int (digits_value s))"

definition sample_unsigned :: "string \<Rightarrow> rat option" where
  "sample_unsigned s =
     (case digits_value (takeWhile (\<lambda>c. c \<noteq> CHR ''.'') s) of
        None \<Rightarrow> None
      | Some a \<Rightarrow>
          (case dropWhile (\<lambda>c. c \<noteq> CHR ''.'') s of
             [] \<Rightarrow> Some (of_nat a)
           | _ # fr \<Rightarrow>
               (case digits_value fr of
                  None \<Rightarrow> None
                | Some b \<Rightarrow> Some (of_nat a + of_nat b / 10 ^ length fr))))"

definition sample_float :: "string \<Rightarrow> rat option" where
  "sample_float s =
     (case s of
        [] \<Rightarrow> None
      | c # r \<Rightarrow>
          if c = CHR ''-'' then map_option uminus (sample_unsigned r)
          else sample_unsigned s)"

definition sample :: "rat externals" where
  "sample =
     \<lparr>py_int = sample_int,
      py_float = sample_float,
      atomic_masses = [1, 1008 / 1000, 4003 / 1000, 694 / 100, 9012 / 1000,
                       1081 / 100, 12011 / 1000, 14007 / 1000, 15999 / 1000],
      Bohr = 5292 / 10000\<rparr>"

section \<open>Auxiliary definitions for the proofs\<close>

text \<open>The number a string of decimal digits denotes.\<close>

definition digits_fold :: "string \<Rightarrow> nat" where
  "digits_fold s = foldl (\<lambda>a c. 10 * a + (of_char c - 48)) 0 s"

text \<open>The key and the record that the comprehension builds from a parsed line.\<close>

definition item_of :: "'f externals \<Rightarrow> string \<times> int \<times> int \<times> 'f \<times> 'f \<times> 'f \<Rightarrow> string \<times> 'f AtomData" where
  "item_of E p = (case p of (s, i, z, x, y, zz) \<Rightarrow>
     (''atom_'' @ str_int (i - 1),
      \<lparr>coord = [x, y, zz], mass = projr (np_index (atomic_masses E) z),
       sort_field = i - 1, symbol = s\<rparr>))"

text \<open>
  A parsed atom line with the same symbol, index and proton number, and with each
  coordinate multiplied by the Bohr radius: the same position expressed in Angstrom.
\<close>

definition scale_line :: "'f::times externals \<Rightarrow> string \<times> int \<times> int \<times> 'f \<times> 'f \<times> 'f \<Rightarrow>
    string \<times> int \<times> int \<times> 'f \<times> 'f \<times> 'f" where
  "scale_line E p = (case p of (s, i, z, x, y, zz) \<Rightarrow>
     (s, i, z, x * Bohr E, y * Bohr E, zz * Bohr E))"

section \<open>Evaluation on concrete inputs\<close>

lemmas text_eval = strip_def header_match_def isspace_def is_name_char_def split_ws_def

lemmas sample_eval =
  sample_def sample_float_def sample_unsigned_def sample_int_def digits_value_def
  to_float_def to_int_def mode_line_def sublist_code

lemmas numpy_eval = np_asarray_def same_length_def expand_dims_def swap_block_def

lemmas atoms_eval = atom_item_def parse_atom_line_def np_index_def str_int_def str_nat.simps
  digit_char_def convert_coord_def bohr_to_ang_def

section \<open>Basic facts\<close>

lemma and_then_Inr: "and_then m f = Inr y \<longleftrightarrow> (\<exists>x. m = Inr x \<and> f x = Inr y)"
  by (cases m) auto

lemma update_fresh: "k \<notin> fst ` set al \<Longrightarrow> AList.update k v al = al @ [(k, v)]"
  by (induction al) auto

section \<open>Properties of the header check\<close>

text \<open>
  C6 (amended). When the first line with its surrounding whitespace stripped is not
  the header text (an empty stream included), the conversion fails with the format
  error, whatever the rest of the stream is. When the stripped first line is the
  header text, the check passes and the conversion is the parse of the remaining
  lines.
\<close>

theorem C6_header_gate:
  "(strip (fst (readline fd)) \<noteq> molden_header
      \<longrightarrow> convert E fd = Inl (ValueError missing_header_msg)) \<and>
   (strip (fst (readline fd)) = molden_header
      \<longrightarrow> check_first_line fd = Inr (snd (readline fd)) \<and>
          convert E fd =
            and_then (read_blocks (snd (readline fd))) (\<lambda>raw_data.
            and_then (parse_atoms_data E raw_data) (\<lambda>atoms.
            and_then (parse_k_points_data E raw_data) (\<lambda>k_points.
            Inr \<lparr>k_points_data = k_points, atoms_data = atoms,
                 abins_class = ''AbinsData'', mantid_version = ''6.9''\<rparr>))))"
  by (cases "readline fd") (simp add: convert_def check_first_line_def)

theorem C6_header_gate_witness:
  "convert sample [''[Molden  Format]'', ''[FREQ]'', ''4500.0''] = Inl (ValueError missing_header_msg) \<and>
   convert sample [] = Inl (ValueError missing_header_msg) \<and>
   check_first_line [''[Molden Format]'' @ [CHR 0x0A], ''[FREQ]'', ''4500.0''] =
     Inr [''[FREQ]'', ''4500.0''] \<and>
   convert sample [''[Molden Format]'' @ [CHR 0x0A], ''[FREQ]'', ''4500.0''] =
     Inl (KeyError ''[Atoms] Angs'')"
proof -
  let ?bad = "[''[Molden  Format]'', ''[FREQ]'', ''4500.0'']"
  let ?good = "[''[Molden Format]'' @ [CHR 0x0A], ''[FREQ]'', ''4500.0'']"
  have b: "strip (fst (readline ?bad)) \<noteq> molden_header"
    by (simp add: molden_header_def text_eval)
  have e: "strip (fst (readline [])) \<noteq> molden_header"
    by (simp add: molden_header_def text_eval)
  have g: "strip (fst (readline ?good)) = molden_header"
    by (simp add: molden_header_def text_eval)
  have r: "read_blocks [''[FREQ]'', ''4500.0''] = Inr [(Some ''[FREQ]'', Some [''4500.0''])]"
    by (simp add: read_blocks_def text_eval)
  have p: "parse_atoms_data sample [(Some ''[FREQ]'', Some [''4500.0''])] =
             Inl (KeyError ''[Atoms] Angs'')"
    by (simp add: parse_atoms_data_def select_atoms_def dict_get_def)
  have 1: "convert sample ?bad = Inl (ValueError missing_header_msg)"
    using C6_header_gate[of ?bad sample] b by blast
  have 2: "convert sample [] = Inl (ValueError missing_header_msg)"
    using C6_header_gate[of "[]" sample] e by blast
  have 3: "check_first_line ?good = Inr [''[FREQ]'', ''4500.0'']"
    using C6_header_gate[of ?good sample] g by simp
  have 4: "convert sample ?good = Inl (KeyError ''[Atoms] Angs'')"
    using C6_header_gate[of ?good sample] g r p by simp
  show ?thesis
    by (rule conjI[OF 1 conjI[OF 2 conjI[OF 3 4]]])
qed

text \<open>
  A first line with blanks around the header text is not the header text, and the
  conversion of that file succeeds.
\<close>

theorem C6_padded_header_counterexample:
  "hd [''  [Molden Format] '', ''[Atoms] Angs'', ''H 1 1 0.0 0.0 0.0'', ''[FREQ]'', ''4500.0'',
       ''[FR-NORM-COORD]'', ''vibration 1'', ''0.0 0.0 0.1''] \<noteq> ''[Molden Format]'' \<and>
   convert sample
      [''  [Molden Format] '', ''[Atoms] Angs'', ''H 1 1 0.0 0.0 0.0'', ''[FREQ]'', ''4500.0'',
       ''[FR-NORM-COORD]'', ''vibration 1'', ''0.0 0.0 0.1''] =
   Inr \<lparr>k_points_data =
          \<lparr>frequencies = [[4500]], atomic_displacements = [[[[0, 0, 0, 0, 1 / 10, 0]]]],
           weights = [1], k_vectors = [[0, 0, 0]],
           unit_cell = [[0, 0, 0], [0, 0, 0], [0, 0, 0]]\<rparr>,
        atoms_data = [(''atom_0'', \<lparr>coord = [0, 0, 0], mass = 1008 / 1000, sort_field = 0,
                                    symbol = ''H''\<rparr>)],
        abins_class = ''AbinsData'', mantid_version = ''6.9''\<rparr>"
proof -
  have 1: "check_first_line [''  [Molden Format] '', ''[Atoms] Angs'', ''H 1 1 0.0 0.0 0.0'', ''[FREQ]'', ''4500.0'',
       ''[FR-NORM-COORD]'', ''vibration 1'', ''0.0 0.0 0.1''] = Inr [''[Atoms] Angs'', ''H 1 1 0.0 0.0 0.0'', ''[FREQ]'', ''4500.0'',
       ''[FR-NORM-COORD]'', ''vibration 1'', ''0.0 0.0 0.1'']"
    by (simp add: check_first_line_def molden_header_def text_eval)
  have 2: "read_blocks [''[Atoms] Angs'', ''H 1 1 0.0 0.0 0.0'', ''[FREQ]'', ''4500.0'',
       ''[FR-NORM-COORD]'', ''vibration 1'', ''0.0 0.0 0.1''] =
       Inr [(Some ''[Atoms] Angs'', Some [''H 1 1 0.0 0.0 0.0'']), (Some ''[FREQ]'', Some [''4500.0'']),
            (Some ''[FR-NORM-COORD]'', Some [''vibration 1'', ''0.0 0.0 0.1''])]"
    by (simp add: read_blocks_def text_eval)
  have 3: "parse_atoms_data sample [(Some ''[Atoms] Angs'', Some [''H 1 1 0.0 0.0 0.0'']), (Some ''[FREQ]'', Some [''4500.0'']),
            (Some ''[FR-NORM-COORD]'', Some [''vibration 1'', ''0.0 0.0 0.1''])] =
       Inr [(''atom_0'', \<lparr>coord = [0, 0, 0], mass = 1008 / 1000, sort_field = 0, symbol = ''H''\<rparr>)]"
    by (simp add: parse_atoms_data_def select_atoms_def dict_get_def atoms_eval sample_eval text_eval)
  have 4: "parse_k_points_data sample [(Some ''[Atoms] Angs'', Some [''H 1 1 0.0 0.0 0.0'']), (Some ''[FREQ]'', Some [''4500.0'']),
            (Some ''[FR-NORM-COORD]'', Some [''vibration 1'', ''0.0 0.0 0.1''])] =
       Inr \<lparr>frequencies = [[4500]], atomic_displacements = [[[[0, 0, 0, 0, 1 / 10, 0]]]],
           weights = [1], k_vectors = [[0, 0, 0]],
           unit_cell = [[0, 0, 0], [0, 0, 0], [0, 0, 0]]\<rparr>"
    by (simp add: parse_k_points_data_def parse_displacements_def dict_get_def sample_eval
      text_eval numpy_eval)
  show ?thesis
    by (simp add: convert_def 1 2 3 4)
qed

section \<open>Properties of the block reader\<close>

lemma header_match_nonempty: "header_match l \<Longrightarrow> l \<noteq> []"
  by (auto simp: header_match_def)

text \<open>
  C3. A content line before the first header is not discarded: the reader has no block
  yet and appending to it fails. On the input of a blank line followed by a
  \<open>[FREQ]\<close> section, the reader raises \<open>AttributeError\<close>.
\<close>

theorem C3_headerless_prefix_raises:
  "read_blocks ['''', ''[FREQ]'', ''1.0''] = Inl AttributeError"
  by (simp add: read_blocks_def strip_def header_match_def)

lemma read_loop_active:
  "\<exists>rd' h' b'. read_loop ls rd (Some h) (Some b) = Inr (rd', Some h', Some b')"
  by (induction ls arbitrary: rd h b) auto

lemma read_loop_sections:
  assumes "h \<noteq> []"
    and "distinct (h # filter header_match ls)"
    and "\<forall>k \<in> set (h # filter header_match ls). Some k \<notin> fst ` set rd"
  shows "\<exists>rd' h' b' blocks.
           read_loop ls rd (Some h) (Some b) = Inr (rd', Some h', Some b') \<and>
           AList.update (Some h') (Some b') rd' =
             rd @ zip (map Some (h # filter header_match ls)) (map Some blocks) \<and>
           length blocks = Suc (length (filter header_match ls)) \<and>
           concat blocks = b @ filter (\<lambda>x. \<not> header_match x) ls"
  using assms
proof (induction ls arbitrary: rd h b)
  case Nil
  then have "AList.update (Some h) (Some b) rd = rd @ [(Some h, Some b)]"
    by (simp add: update_fresh)
  then show ?case
    by (intro exI[of _ rd] exI[of _ h] exI[of _ b] exI[of _ "[b]"]) simp
next
  case (Cons l ls)
  show ?case
  proof (cases "header_match l")
    case True
    let ?rd = "rd @ [(Some h, Some b)]"
    have upd: "AList.update (Some h) (Some b) rd = ?rd"
      using Cons.prems by (simp add: update_fresh)
    have l_ne: "l \<noteq> []" using True by (rule header_match_nonempty)
    have d: "distinct (l # filter header_match ls)"
      using Cons.prems True by simp
    have f: "\<forall>k \<in> set (l # filter header_match ls). Some k \<notin> fst ` set ?rd"
      using Cons.prems True by auto
    from Cons.IH[OF l_ne d f, of "[]"] obtain rd' h' b' blocks where
      r: "read_loop ls ?rd (Some l) (Some []) = Inr (rd', Some h', Some b')"
      and u: "AList.update (Some h') (Some b') rd' =
                ?rd @ zip (map Some (l # filter header_match ls)) (map Some blocks)"
      and n: "length blocks = Suc (length (filter header_match ls))"
      and c: "concat blocks = [] @ filter (\<lambda>x. \<not> header_match x) ls"
      by blast
    show ?thesis
      using True Cons.prems(1) r u n c upd
      by (intro exI[of _ rd'] exI[of _ h'] exI[of _ b'] exI[of _ "b # blocks"]) simp
  next
    case False
    from Cons.IH[of h rd "b @ [l]"] Cons.prems False obtain rd' h' b' blocks where
      "read_loop ls rd (Some h) (Some (b @ [l])) = Inr (rd', Some h', Some b')"
      "AList.update (Some h') (Some b') rd' =
                rd @ zip (map Some (h # filter header_match ls)) (map Some blocks)"
      "length blocks = Suc (length (filter header_match ls))"
      "concat blocks = (b @ [l]) @ filter (\<lambda>x. \<not> header_match x) ls"
      by auto
    then show ?thesis
      using False
      by (intro exI[of _ rd'] exI[of _ h'] exI[of _ b'] exI[of _ blocks]) simp
  qed
qed

text \<open>
  C4. When the first line is a header and the header lines are pairwise distinct, the
  reader returns one entry per header line, keyed by the stripped text of the header
  in file order, and the blocks of the entries, concatenated in that order, are
  exactly the stripped non-header lines in file order, the block of the last header
  included. A header line is a line that \<open>header_match\<close> accepts.
\<close>

theorem C4_block_completeness:
  assumes "fd \<noteq> []"
    and "header_match (strip (hd fd))"
    and "distinct (filter header_match (map strip fd))"
  shows "\<exists>d blocks.
           read_blocks fd = Inr d \<and>
           length d = length (filter header_match (map strip fd)) \<and>
           map fst d = map Some (filter header_match (map strip fd)) \<and>
           map snd d = map Some blocks \<and>
           concat blocks = filter (\<lambda>x. \<not> header_match x) (map strip fd)"
proof -
  from assms(1) obtain l0 fd' where fd: "fd = l0 # fd'" by (cases fd) auto
  let ?h = "strip l0" and ?ls = "map strip fd'"
  have hm: "header_match ?h" using assms(2) fd by simp
  have ne: "?h \<noteq> []" using hm by (rule header_match_nonempty)
  have d: "distinct (?h # filter header_match ?ls)" using assms(3) fd hm by simp
  from read_loop_sections[OF ne d, of "[]" "[]"] obtain rd' h' b' blocks where
    r: "read_loop ?ls [] (Some ?h) (Some []) = Inr (rd', Some h', Some b')"
    and u: "AList.update (Some h') (Some b') rd' =
              zip (map Some (?h # filter header_match ?ls)) (map Some blocks)"
    and n: "length blocks = Suc (length (filter header_match ?ls))"
    and c: "concat blocks = filter (\<lambda>x. \<not> header_match x) ?ls"
    by auto
  let ?d = "zip (map Some (?h # filter header_match ?ls)) (map Some blocks)"
  have "read_blocks fd = Inr ?d"
    using r u hm by (simp add: read_blocks_def fd)
  moreover have "length ?d = length (filter header_match (map strip fd))"
    using n hm by (simp add: fd)
  moreover have "map fst ?d = map Some (filter header_match (map strip fd))"
    using n hm by (simp add: fd)
  moreover have "map snd ?d = map Some blocks"
    using n by simp
  moreover have "concat blocks = filter (\<lambda>x. \<not> header_match x) (map strip fd)"
    using c hm by (simp add: fd)
  ultimately show ?thesis by blast
qed

theorem C4_block_completeness_witness:
  "[''[Atoms] AU'' @ [CHR 0x0A], '' H 1 1 0 0 0 '' @ [CHR 0x0A], '''' @ [CHR 0x0A],
     ''[FREQ]'' @ [CHR 0x0A], ''4500.0''] \<noteq> [] \<and>
   header_match (strip (hd [''[Atoms] AU'' @ [CHR 0x0A], '' H 1 1 0 0 0 '' @ [CHR 0x0A],
     '''' @ [CHR 0x0A], ''[FREQ]'' @ [CHR 0x0A], ''4500.0''])) \<and>
   distinct (filter header_match (map strip [''[Atoms] AU'' @ [CHR 0x0A],
     '' H 1 1 0 0 0 '' @ [CHR 0x0A], '''' @ [CHR 0x0A], ''[FREQ]'' @ [CHR 0x0A], ''4500.0''])) \<and>
   (\<exists>d blocks.
      read_blocks [''[Atoms] AU'' @ [CHR 0x0A], '' H 1 1 0 0 0 '' @ [CHR 0x0A],
        '''' @ [CHR 0x0A], ''[FREQ]'' @ [CHR 0x0A], ''4500.0''] = Inr d \<and>
      length d = 2 \<and>
      map fst d = [Some ''[Atoms] AU'', Some ''[FREQ]''] \<and>
      map snd d = map Some blocks \<and>
      concat blocks = [''H 1 1 0 0 0'', '''', ''4500.0''])"
proof -
  let ?fd = "[''[Atoms] AU'' @ [CHR 0x0A], '' H 1 1 0 0 0 '' @ [CHR 0x0A],
     '''' @ [CHR 0x0A], ''[FREQ]'' @ [CHR 0x0A], ''4500.0'']"
  have s: "map strip ?fd = [''[Atoms] AU'', ''H 1 1 0 0 0'', '''', ''[FREQ]'', ''4500.0'']"
    by (simp add: text_eval)
  have h1: "?fd \<noteq> []" by simp
  have h2: "header_match (strip (hd ?fd))" by (simp add: text_eval)
  have f: "filter header_match (map strip ?fd) = [''[Atoms] AU'', ''[FREQ]'']"
    unfolding s by (simp add: text_eval)
  have g: "filter (\<lambda>x. \<not> header_match x) (map strip ?fd) = [''H 1 1 0 0 0'', '''', ''4500.0'']"
    unfolding s by (simp add: text_eval)
  have h3: "distinct (filter header_match (map strip ?fd))"
    unfolding f by simp
  from C4_block_completeness[OF h1 h2 h3] obtain d blocks where
    "read_blocks ?fd = Inr d"
    "length d = length (filter header_match (map strip ?fd))"
    "map fst d = map Some (filter header_match (map strip ?fd))"
    "map snd d = map Some blocks"
    "concat blocks = filter (\<lambda>x. \<not> header_match x) (map strip ?fd)"
    by blast
  then have "\<exists>d blocks. read_blocks ?fd = Inr d \<and> length d = 2 \<and>
      map fst d = [Some ''[Atoms] AU'', Some ''[FREQ]''] \<and>
      map snd d = map Some blocks \<and>
      concat blocks = [''H 1 1 0 0 0'', '''', ''4500.0'']"
    unfolding f g by (intro exI[of _ d] exI[of _ blocks]) simp
  then show ?thesis
    by (rule conjI[OF h1 conjI[OF h2 conjI[OF h3]]])
qed

lemma read_loop_prefix:
  "\<exists>rd' h' b'. read_loop (pre @ rest) rd (Some h) (Some b) =
                  read_loop rest rd' (Some h') (Some b')"
  by (induction pre arbitrary: rd h b) auto

lemma read_loop_other_key:
  assumes "k \<noteq> Some h"
    and "k \<notin> Some ` set ls"
    and "read_loop ls rd (Some h) (Some b) = Inr (rd', h', b')"
  shows "map_of (AList.update h' b' rd') k = map_of rd k"
  using assms
proof (induction ls arbitrary: rd h b)
  case Nil
  then show ?case by (auto simp: update_conv')
next
  case (Cons l ls)
  show ?case
  proof (cases "header_match l")
    case True
    let ?rd = "if truthy (Some h) then AList.update (Some h) (Some b) rd else rd"
    have "read_loop ls ?rd (Some l) (Some []) = Inr (rd', h', b')"
      using Cons.prems(3) True by simp
    moreover have "k \<noteq> Some l" "k \<notin> Some ` set ls"
      using Cons.prems(2) by auto
    ultimately have "map_of (AList.update h' b' rd') k = map_of ?rd k"
      using Cons.IH by blast
    also have "\<dots> = map_of rd k"
      using Cons.prems(1) by (simp add: update_conv')
    finally show ?thesis .
  next
    case False
    then show ?thesis
      using Cons.prems Cons.IH[of h rd "b @ [l]"] by auto
  qed
qed

lemma read_loop_own_key:
  assumes "h \<noteq> []"
    and "h \<notin> set ls"
    and "read_loop ls rd (Some h) (Some b) = Inr (rd', h', b')"
  shows "map_of (AList.update h' b' rd') (Some h) =
           Some (Some (b @ takeWhile (\<lambda>x. \<not> header_match x) ls))"
  using assms
proof (induction ls arbitrary: b)
  case Nil
  then show ?case by (auto simp: update_conv')
next
  case (Cons l ls)
  show ?case
  proof (cases "header_match l")
    case True
    let ?rd = "AList.update (Some h) (Some b) rd"
    have r: "read_loop ls ?rd (Some l) (Some []) = Inr (rd', h', b')"
      using Cons.prems True by simp
    have "Some h \<noteq> Some l" "Some h \<notin> Some ` set ls"
      using Cons.prems(2) by auto
    from read_loop_other_key[OF this r]
    have "map_of (AList.update h' b' rd') (Some h) = map_of ?rd (Some h)" .
    then show ?thesis
      using True by (simp add: update_conv')
  next
    case False
    then show ?thesis
      using Cons.prems Cons.IH[of "b @ [l]"] by auto
  qed
qed

text \<open>
  C10 (amended). When no content line precedes the first header (the stream starts
  with a header line), the last occurrence of a header line decides its entry,
  whatever precedes it, earlier occurrences of the same header included: the reader
  returns without an error and maps the header to the content lines between that
  occurrence and the next header, or the end of the stream.
\<close>

theorem C10_last_occurrence_wins:
  assumes "map strip fd = pre @ h # post"
    and "header_match h"
    and "h \<notin> set post"
    and "pre = [] \<or> header_match (hd pre)"
  shows "\<exists>d. read_blocks fd = Inr d \<and>
             map_of d (Some h) = Some (Some (takeWhile (\<lambda>x. \<not> header_match x) post))"
proof -
  have ne: "h \<noteq> []" using assms(2) by (rule header_match_nonempty)
  have "\<exists>rd. read_loop (map strip fd) [] None None = read_loop post rd (Some h) (Some [])"
  proof (cases pre)
    case Nil
    then have "read_loop (map strip fd) [] None None = read_loop post [] (Some h) (Some [])"
      using assms(1,2) by simp
    then show ?thesis ..
  next
    case (Cons p pre')
    then have p: "header_match p" using assms(4) by simp
    obtain rd' h' b' where
      "read_loop (pre' @ h # post) [] (Some p) (Some []) =
         read_loop (h # post) rd' (Some h') (Some b')"
      using read_loop_prefix by blast
    then have "read_loop (map strip fd) [] None None =
                 read_loop post (if truthy (Some h') then AList.update (Some h') (Some b') rd' else rd')
                   (Some h) (Some [])"
      using Cons p assms(1,2) by simp
    then show ?thesis ..
  qed
  then obtain rd where
    s: "read_loop (map strip fd) [] None None = read_loop post rd (Some h) (Some [])" ..
  obtain rd' h' b' where
    r: "read_loop post rd (Some h) (Some []) = Inr (rd', Some h', Some b')"
    using read_loop_active by blast
  from read_loop_own_key[OF ne assms(3) r]
  have "map_of (AList.update (Some h') (Some b') rd') (Some h) =
          Some (Some (takeWhile (\<lambda>x. \<not> header_match x) post))"
    by simp
  then show ?thesis
    using s r by (simp add: read_blocks_def)
qed

theorem C10_last_occurrence_wins_witness:
  "map strip [''[A]'', ''1'', ''[B]'', ''2'', '' [A] '', ''3'', ''4 ''] =
     [''[A]'', ''1'', ''[B]'', ''2''] @ ''[A]'' # [''3'', ''4''] \<and>
   header_match ''[A]'' \<and> ''[A]'' \<notin> set [''3'', ''4''] \<and>
   header_match (hd [''[A]'', ''1'', ''[B]'', ''2'']) \<and>
   (\<exists>d. read_blocks [''[A]'', ''1'', ''[B]'', ''2'', '' [A] '', ''3'', ''4 ''] = Inr d \<and>
        map_of d (Some ''[A]'') = Some (Some [''3'', ''4''])) \<and>
   read_blocks [''[A]'', ''1'', ''[B]'', ''2'', '' [A] '', ''3'', ''4 ''] =
     Inr [(Some ''[A]'', Some [''3'', ''4'']), (Some ''[B]'', Some [''2''])]"
proof -
  have h1: "map strip [''[A]'', ''1'', ''[B]'', ''2'', '' [A] '', ''3'', ''4 ''] =
              [''[A]'', ''1'', ''[B]'', ''2''] @ ''[A]'' # [''3'', ''4'']"
    by (simp add: text_eval)
  have h2: "header_match ''[A]''" by (simp add: text_eval)
  have h3: "''[A]'' \<notin> set [''3'', ''4'']" by simp
  have h4: "[''[A]'', ''1'', ''[B]'', ''2''] = [] \<or> header_match (hd [''[A]'', ''1'', ''[B]'', ''2''])"
    by (simp add: text_eval)
  have r: "read_blocks [''[A]'', ''1'', ''[B]'', ''2'', '' [A] '', ''3'', ''4 ''] =
     Inr [(Some ''[A]'', Some [''3'', ''4'']), (Some ''[B]'', Some [''2''])]"
    by (simp add: read_blocks_def text_eval)
  show ?thesis
    using h1 h2 h3 h4 r C10_last_occurrence_wins[OF h1 h2 h3 h4] by simp
qed

text \<open>
  A stream in which the header \<open>[A]\<close> occurs twice, after a content line that no header
  precedes: the reader returns no mapping, it raises \<open>AttributeError\<close> at the first line.
\<close>

theorem C10_repeated_header_after_prefix_counterexample:
  "filter header_match (map strip [''title'', ''[A]'', ''1'', ''[A]'', ''2'']) = [''[A]'', ''[A]''] \<and>
   read_blocks [''title'', ''[A]'', ''1'', ''[A]'', ''2''] = Inl AttributeError"
  by (simp add: read_blocks_def text_eval)

section \<open>Properties of the geometry extractor\<close>

lemma digit_char_code: "n < 10 \<Longrightarrow> of_char (digit_char n) = (48 + n :: nat)"
proof -
  assume "n < 10"
  then have "n \<in> {0, 1, 2, 3, 4, 5, 6, 7, 8, 9}" by auto
  then show ?thesis by (auto simp: digit_char_def)
qed

lemma digit_char_not_minus: "n < 10 \<Longrightarrow> digit_char n \<noteq> CHR ''-''"
proof -
  assume "n < 10"
  then have "n \<in> {0, 1, 2, 3, 4, 5, 6, 7, 8, 9}" by auto
  then show ?thesis by (auto simp: digit_char_def)
qed

lemma digits_fold_str_nat: "digits_fold (str_nat n) = n"
proof (induction n rule: str_nat.induct)
  case (1 n)
  show ?case
  proof (cases "n < 10")
    case True
    then show ?thesis
      by (subst str_nat.simps) (simp add: digits_fold_def digit_char_code)
  next
    case False
    have m: "n mod 10 < 10" by simp
    from False 1 have "digits_fold (str_nat (n div 10)) = n div 10" by simp
    then show ?thesis
      using False m by (subst str_nat.simps) (simp add: digits_fold_def digit_char_code)
  qed
qed

lemma str_nat_inj: "str_nat a = str_nat b \<Longrightarrow> a = b"
  by (metis digits_fold_str_nat)

lemma str_nat_no_minus: "CHR ''-'' \<notin> set (str_nat n)"
proof (induction n rule: str_nat.induct)
  case (1 n)
  show ?case
  proof (cases "n < 10")
    case True
    then show ?thesis
      using digit_char_not_minus[of n] by (subst str_nat.simps) auto
  next
    case False
    have "n mod 10 < 10" by simp
    then have "digit_char (n mod 10) \<noteq> CHR ''-''" by (rule digit_char_not_minus)
    then show ?thesis
      using False 1 by (subst str_nat.simps) auto
  qed
qed

lemma str_int_inj: "str_int i = str_int j \<Longrightarrow> i = j"
proof -
  assume e: "str_int i = str_int j"
  consider "i < 0" "j < 0" | "0 \<le> i" "0 \<le> j" | "i < 0" "0 \<le> j" | "0 \<le> i" "j < 0"
    by linarith
  then show ?thesis
  proof cases
    case 1
    with e have "nat (- i) = nat (- j)" by (simp add: str_int_def str_nat_inj)
    with 1 show ?thesis by simp
  next
    case 2
    with e have "nat i = nat j" by (simp add: str_int_def str_nat_inj)
    with 2 show ?thesis by simp
  next
    case 3
    with e have "str_nat (nat j) = CHR ''-'' # str_nat (nat (- i))"
      by (simp add: str_int_def)
    then have "CHR ''-'' \<in> set (str_nat (nat j))" by simp
    then show ?thesis using str_nat_no_minus by blast
  next
    case 4
    with e have "str_nat (nat i) = CHR ''-'' # str_nat (nat (- j))"
      by (simp add: str_int_def)
    then have "CHR ''-'' \<in> set (str_nat (nat i))" by simp
    then show ?thesis using str_nat_no_minus by blast
  qed
qed

lemma atoms_comprehension_fresh:
  assumes "map (atom_item E) ls = map Inr items"
    and "distinct (map fst items)"
    and "set (map fst items) \<inter> fst ` set acc = {}"
  shows "atoms_comprehension E ls acc = Inr (acc @ items)"
  using assms
proof (induction ls arbitrary: acc items)
  case Nil
  then show ?case by simp
next
  case (Cons l ls)
  then obtain k v items' where items: "items = (k, v) # items'"
    by (cases items) auto
  have l: "atom_item E l = Inr (k, v)" and rest: "map (atom_item E) ls = map Inr items'"
    using Cons.prems(1) items by simp_all
  have fresh: "k \<notin> fst ` set acc" using Cons.prems(3) items by auto
  have upd: "AList.update k v acc = acc @ [(k, v)]"
    using fresh by (rule update_fresh)
  have d: "distinct (map fst items')" using Cons.prems(2) items by simp
  have i: "set (map fst items') \<inter> fst ` set (acc @ [(k, v)]) = {}"
    using Cons.prems(2,3) items by auto
  show ?case
    using l upd Cons.IH[OF rest d i] by (simp add: items)
qed

lemma atom_item_of:
  assumes "parse_atom_line E l = Inr p"
    and "\<not> isl (np_index (atomic_masses E) (line_proton p))"
  shows "atom_item E l = Inr (item_of E p)"
proof -
  obtain s i z x y zz where p: "p = (s, i, z, x, y, zz)" by (cases p) auto
  from assms(2) obtain m where "np_index (atomic_masses E) z = Inr m"
    by (cases "np_index (atomic_masses E) z") (auto simp: p line_proton_def)
  then show ?thesis
    using assms(1) by (simp add: atom_item_def item_of_def p)
qed

lemma map_atom_item_of:
  assumes "map (parse_atom_line E) ls = map Inr ps"
    and "\<forall>p\<in>set ps. \<not> isl (np_index (atomic_masses E) (line_proton p))"
  shows "map (atom_item E) ls = map Inr (map (item_of E) ps)"
  using assms
proof (induction ls arbitrary: ps)
  case Nil
  then show ?case by simp
next
  case (Cons l ls)
  then obtain p ps' where ps: "ps = p # ps'" by (cases ps) auto
  then show ?case
    using Cons atom_item_of[of E l p] by auto
qed

lemma item_of_fst: "fst (item_of E p) = ''atom_'' @ str_int (line_index p - 1)"
  by (cases p) (simp add: item_of_def line_index_def)

lemma item_of_sort: "sort_field (snd (item_of E p)) = line_index p - 1"
  by (cases p) (simp add: item_of_def line_index_def)

lemma item_of_symbol: "symbol (snd (item_of E p)) = line_symbol p"
  by (cases p) (simp add: item_of_def line_symbol_def)

lemma distinct_item_keys:
  assumes "distinct (map line_index ps)"
  shows "distinct (map fst (map (item_of E) ps))"
proof -
  have "inj (\<lambda>i. ''atom_'' @ str_int (i - 1))"
    by (rule injI) (use str_int_inj in fastforce)
  then have "distinct (map (\<lambda>i. ''atom_'' @ str_int (i - 1)) (map line_index ps))"
    using assms by (simp only: distinct_map) (meson inj_on_subset subset_UNIV)
  then show ?thesis
    by (simp add: comp_def item_of_fst)
qed

text \<open>
  C2 (amended). The sort value of a record is the index field of its line minus one,
  and its key is \<open>atom_\<close> followed by that value; the position of the line is not
  used. For K lines that parse, with masses in the table and pairwise distinct index
  fields, the extractor returns K records in file line order with these keys and sort
  values; they are 0 to K-1 in line order when line \<open>i\<close> (from 0) carries the index
  \<open>i + 1\<close>.
\<close>

theorem C2_sort_from_index_field:
  assumes "select_atoms raw_data = Inr (Some ls, bohr_units)"
    and "map (parse_atom_line E) ls = map Inr ps"
    and "\<forall>p\<in>set ps. \<not> isl (np_index (atomic_masses E) (line_proton p))"
    and "distinct (map line_index ps)"
  shows "\<exists>d. parse_atoms_data E raw_data = Inr d \<and> length d = length ls \<and>
           map fst d = map (\<lambda>p. ''atom_'' @ str_int (line_index p - 1)) ps \<and>
           map (\<lambda>item. sort_field (snd item)) d = map (\<lambda>p. line_index p - 1) ps \<and>
           map (\<lambda>item. symbol (snd item)) d = map line_symbol ps \<and>
           (map line_index ps = map (\<lambda>i. int i + 1) [0..<length ls]
              \<longrightarrow> map (\<lambda>item. sort_field (snd item)) d = map int [0..<length ls])"
proof -
  let ?items = "map (item_of E) ps"
  let ?d = "if bohr_units then map (convert_coord E) ?items else ?items"
  have len: "length ps = length ls"
    using assms(2) by (metis length_map)
  have "atoms_comprehension E ls [] = Inr ([] @ ?items)"
    using map_atom_item_of[OF assms(2,3)] distinct_item_keys[OF assms(4)]
    by (intro atoms_comprehension_fresh) simp_all
  then have r: "parse_atoms_data E raw_data = Inr ?d"
    using assms(1) by (simp add: parse_atoms_data_def)
  have k: "map fst ?d = map (\<lambda>p. ''atom_'' @ str_int (line_index p - 1)) ps"
    by (simp add: comp_def convert_coord_def item_of_fst)
  have s: "map (\<lambda>item. sort_field (snd item)) ?d = map (\<lambda>p. line_index p - 1) ps"
    by (simp add: comp_def convert_coord_def item_of_sort)
  have y: "map (\<lambda>item. symbol (snd item)) ?d = map line_symbol ps"
    by (simp add: comp_def convert_coord_def item_of_symbol)
  have o: "map (\<lambda>item. sort_field (snd item)) ?d = map int [0..<length ls]"
    if "map line_index ps = map (\<lambda>i. int i + 1) [0..<length ls]"
  proof -
    have "map (\<lambda>p. line_index p - 1) ps = map (\<lambda>i. i - 1) (map line_index ps)"
      by (simp add: comp_def)
    also have "\<dots> = map int [0..<length ls]"
      unfolding that by (simp add: comp_def)
    finally show ?thesis using s by simp
  qed
  have l: "length ?d = length ls" using len by simp
  show ?thesis
    using r l k s y o by (intro exI[of _ ?d]) blast
qed

theorem C2_sort_from_index_field_witness:
  "select_atoms [(Some ''[Atoms] AU'', Some [''O 1 8 0.0 0.0 0.0'', ''H 2 1 0.0 0.0 2.0''])] =
     Inr (Some [''O 1 8 0.0 0.0 0.0'', ''H 2 1 0.0 0.0 2.0''], True) \<and>
   map (parse_atom_line sample) [''O 1 8 0.0 0.0 0.0'', ''H 2 1 0.0 0.0 2.0''] =
     map Inr [(''O'', 1, 8, 0, 0, 0), (''H'', 2, 1, 0, 0, 2)] \<and>
   (\<exists>d. parse_atoms_data sample
          [(Some ''[Atoms] AU'', Some [''O 1 8 0.0 0.0 0.0'', ''H 2 1 0.0 0.0 2.0''])] = Inr d \<and>
        length d = 2 \<and>
        map fst d = [''atom_0'', ''atom_1''] \<and>
        map (\<lambda>item. sort_field (snd item)) d = [0, 1] \<and>
        map (\<lambda>item. symbol (snd item)) d = [''O'', ''H''])"
proof -
  let ?ls = "[''O 1 8 0.0 0.0 0.0'', ''H 2 1 0.0 0.0 2.0'']"
  let ?raw = "[(Some ''[Atoms] AU'', Some ?ls)] :: raw_blocks"
  let ?ps = "[(''O'', 1, 8, 0, 0, 0), (''H'', 2, 1, 0, 0, 2)] :: (string \<times> int \<times> int \<times> rat \<times> rat \<times> rat) list"
  have h1: "select_atoms ?raw = Inr (Some ?ls, True)"
    by (simp add: select_atoms_def dict_get_def)
  have h2: "map (parse_atom_line sample) ?ls = map Inr ?ps"
    by (simp add: parse_atom_line_def sample_eval text_eval)
  have h3: "\<forall>p\<in>set ?ps. \<not> isl (np_index (atomic_masses sample) (line_proton p))"
    by (simp add: np_index_def line_proton_def sample_def)
  have h4: "distinct (map line_index ?ps)"
    by (simp add: line_index_def)
  have i: "map line_index ?ps = map (\<lambda>i. int i + 1) [0..<length ?ls]"
    by (simp add: line_index_def upt_rec)
  from C2_sort_from_index_field[OF h1 h2 h3 h4] obtain d where
    d: "parse_atoms_data sample ?raw = Inr d" "length d = length ?ls"
      "map fst d = map (\<lambda>p. ''atom_'' @ str_int (line_index p - 1)) ?ps"
      "map (\<lambda>item. symbol (snd item)) d = map line_symbol ?ps"
    and o: "map line_index ?ps = map (\<lambda>i. int i + 1) [0..<length ?ls]
              \<longrightarrow> map (\<lambda>item. sort_field (snd item)) d = map int [0..<length ?ls]"
    by blast
  from o i have s: "map (\<lambda>item. sort_field (snd item)) d = map int [0..<length ?ls]"
    by blast
  have "\<exists>d. parse_atoms_data sample ?raw = Inr d \<and> length d = 2 \<and>
        map fst d = [''atom_0'', ''atom_1''] \<and>
        map (\<lambda>item. sort_field (snd item)) d = [0, 1] \<and>
        map (\<lambda>item. symbol (snd item)) d = [''O'', ''H'']"
    using d s
    by (intro exI[of _ d])
       (simp add: line_index_def line_symbol_def str_int_def str_nat.simps digit_char_def upt_rec)
  then show ?thesis
    by (rule conjI[OF h1 conjI[OF h2]])
qed

text \<open>
  Two lines with the index fields 2 and 1: the first line gets the sort value 1 and
  the key \<open>atom_1\<close>, the second the sort value 0.
\<close>

theorem C2_file_order_counterexample:
  "parse_atoms_data sample
     [(Some ''[Atoms] Angs'', Some [''H 2 1 0.0 0.0 0.0'', ''O 1 8 0.0 0.0 1.0''])] =
   Inr [(''atom_1'', \<lparr>coord = [0, 0, 0], mass = 1008 / 1000, sort_field = 1, symbol = ''H''\<rparr>),
        (''atom_0'', \<lparr>coord = [0, 0, 1], mass = 15999 / 1000, sort_field = 0, symbol = ''O''\<rparr>)]"
  by (simp add: parse_atoms_data_def select_atoms_def dict_get_def atoms_eval sample_eval text_eval)

lemma update_convert_coord:
  "AList.update (fst (convert_coord E (k, v))) (snd (convert_coord E (k, v)))
     (map (convert_coord E) acc) =
   map (convert_coord E) (AList.update k v acc)"
  by (induction acc) (auto simp: convert_coord_def)

lemma atoms_comprehension_scaled:
  assumes "map (atom_item E) ls' = map (\<lambda>l. and_then (atom_item E l) (\<lambda>kv. Inr (convert_coord E kv))) ls"
  shows "atoms_comprehension E ls' (map (convert_coord E) acc) =
           and_then (atoms_comprehension E ls acc) (\<lambda>d. Inr (map (convert_coord E) d))"
  using assms
proof (induction ls arbitrary: ls' acc)
  case Nil
  then show ?case by simp
next
  case (Cons l ls)
  then obtain l' ls'' where ls': "ls' = l' # ls''" by (cases ls') auto
  have h: "atom_item E l' = and_then (atom_item E l) (\<lambda>kv. Inr (convert_coord E kv))"
    and t: "map (atom_item E) ls'' = map (\<lambda>l. and_then (atom_item E l) (\<lambda>kv. Inr (convert_coord E kv))) ls"
    using Cons.prems ls' by simp_all
  show ?case
  proof (cases "atom_item E l")
    case (Inl e)
    then show ?thesis using h by (simp add: ls')
  next
    case (Inr kv)
    obtain k v where kv: "kv = (k, v)" by (cases kv) auto
    obtain k' v' where c: "convert_coord E (k, v) = (k', v')"
      by (cases "convert_coord E (k, v)") auto
    have u: "AList.update k' v' (map (convert_coord E) acc) =
             map (convert_coord E) (AList.update k v acc)"
      using update_convert_coord[of E k v acc] c by simp
    show ?thesis
      using Inr h kv c u Cons.IH[OF t, of "AList.update k v acc"] by (simp add: ls')
  qed
qed

lemma atom_item_scaled:
  assumes "parse_atom_line E l = Inr p"
    and "parse_atom_line E l' = Inr (scale_line E p)"
  shows "atom_item E l' = and_then (atom_item E l) (\<lambda>kv. Inr (convert_coord E kv))"
proof -
  obtain s i z x y zz where p: "p = (s, i, z, x, y, zz)" by (cases p) auto
  show ?thesis
    using assms
    by (cases "np_index (atomic_masses E) z")
       (simp_all add: atom_item_def p scale_line_def convert_coord_def bohr_to_ang_def)
qed

lemma map_atom_item_scaled:
  assumes "map (parse_atom_line E) ls = map Inr ps"
    and "map (parse_atom_line E) ls' = map (\<lambda>p. Inr (scale_line E p)) ps"
  shows "map (atom_item E) ls' = map (\<lambda>l. and_then (atom_item E l) (\<lambda>kv. Inr (convert_coord E kv))) ls"
  using assms
proof (induction ps arbitrary: ls ls')
  case Nil
  then show ?case by simp
next
  case (Cons p ps)
  from Cons.prems(1) obtain l t where ls: "ls = l # t" by (cases ls) auto
  from Cons.prems(2) obtain l' t' where ls': "ls' = l' # t'" by (cases ls') auto
  show ?case
    using Cons.prems Cons.IH[of t t'] atom_item_scaled[of E l p l']
    by (simp add: ls ls')
qed

text \<open>
  C9. A Bohr-tagged section and an Angstrom-tagged section whose lines parse to the
  same symbols, indices and proton numbers, the Angstrom coordinates being the Bohr
  coordinates times the constant, give the same result. The Bohr result is the
  comprehension over its lines with every coordinate multiplied by the constant
  afterwards; the Angstrom result is the comprehension over its lines, unchanged.
\<close>

theorem C9_unit_normalization:
  assumes "map_of raw_au (Some ''[Atoms] AU'') = Some (Some ls_au)"
    and "map_of raw_ang (Some ''[Atoms] AU'') = None"
    and "map_of raw_ang (Some ''[Atoms] Angs'') = Some (Some ls_ang)"
    and "map (parse_atom_line E) ls_au = map Inr ps"
    and "map (parse_atom_line E) ls_ang = map (\<lambda>p. Inr (scale_line E p)) ps"
  shows "parse_atoms_data E raw_ang = parse_atoms_data E raw_au \<and>
         parse_atoms_data E raw_au =
           and_then (atoms_comprehension E ls_au []) (\<lambda>d. Inr (map (convert_coord E) d)) \<and>
         parse_atoms_data E raw_ang = atoms_comprehension E ls_ang []"
proof -
  have au: "parse_atoms_data E raw_au =
           and_then (atoms_comprehension E ls_au []) (\<lambda>d. Inr (map (convert_coord E) d))"
    using assms(1) by (simp add: parse_atoms_data_def select_atoms_def dict_get_def)
  have ang: "parse_atoms_data E raw_ang = atoms_comprehension E ls_ang []"
    using assms(2,3)
    by (cases "atoms_comprehension E ls_ang []")
       (simp_all add: parse_atoms_data_def select_atoms_def dict_get_def)
  have "atoms_comprehension E ls_ang (map (convert_coord E) []) =
          and_then (atoms_comprehension E ls_au []) (\<lambda>d. Inr (map (convert_coord E) d))"
    using map_atom_item_scaled[OF assms(4,5)] by (rule atoms_comprehension_scaled)
  then show ?thesis
    using au ang by simp
qed

theorem C9_unit_normalization_witness:
  "map (parse_atom_line sample) [''H 1 1 0.0 0.0 0.0'', ''H 2 1 0.0 0.0 2.0''] =
     map Inr [(''H'', 1, 1, 0, 0, 0), (''H'', 2, 1, 0, 0, 2)] \<and>
   map (parse_atom_line sample) [''H 1 1 0.0 0.0 0.0'', ''H 2 1 0.0 0.0 1.0584''] =
     map (\<lambda>p. Inr (scale_line sample p)) [(''H'', 1, 1, 0, 0, 0), (''H'', 2, 1, 0, 0, 2)] \<and>
   parse_atoms_data sample
     [(Some ''[Atoms] Angs'', Some [''H 1 1 0.0 0.0 0.0'', ''H 2 1 0.0 0.0 1.0584''])] =
   parse_atoms_data sample
     [(Some ''[Atoms] AU'', Some [''H 1 1 0.0 0.0 0.0'', ''H 2 1 0.0 0.0 2.0''])] \<and>
   parse_atoms_data sample
     [(Some ''[Atoms] AU'', Some [''H 1 1 0.0 0.0 0.0'', ''H 2 1 0.0 0.0 2.0''])] =
   Inr [(''atom_0'', \<lparr>coord = [0, 0, 0], mass = 1008 / 1000, sort_field = 0, symbol = ''H''\<rparr>),
        (''atom_1'', \<lparr>coord = [0, 0, 10584 / 10000], mass = 1008 / 1000, sort_field = 1,
                     symbol = ''H''\<rparr>)]"
proof -
  let ?au = "[''H 1 1 0.0 0.0 0.0'', ''H 2 1 0.0 0.0 2.0'']"
  let ?ang = "[''H 1 1 0.0 0.0 0.0'', ''H 2 1 0.0 0.0 1.0584'']"
  let ?ps = "[(''H'', 1, 1, 0, 0, 0), (''H'', 2, 1, 0, 0, 2)] :: (string \<times> int \<times> int \<times> rat \<times> rat \<times> rat) list"
  let ?raw_au = "[(Some ''[Atoms] AU'', Some ?au)] :: raw_blocks"
  let ?raw_ang = "[(Some ''[Atoms] Angs'', Some ?ang)] :: raw_blocks"
  have h1: "map_of ?raw_au (Some ''[Atoms] AU'') = Some (Some ?au)" by simp
  have h2: "map_of ?raw_ang (Some ''[Atoms] AU'') = None" by simp
  have h3: "map_of ?raw_ang (Some ''[Atoms] Angs'') = Some (Some ?ang)" by simp
  have h4: "map (parse_atom_line sample) ?au = map Inr ?ps"
    by (simp add: parse_atom_line_def sample_eval text_eval)
  have h5: "map (parse_atom_line sample) ?ang = map (\<lambda>p. Inr (scale_line sample p)) ?ps"
    by (simp add: parse_atom_line_def scale_line_def sample_eval text_eval)
  have c: "atoms_comprehension sample ?ang [] =
     Inr [(''atom_0'', \<lparr>coord = [0, 0, 0], mass = 1008 / 1000, sort_field = 0, symbol = ''H''\<rparr>),
        (''atom_1'', \<lparr>coord = [0, 0, 10584 / 10000], mass = 1008 / 1000, sort_field = 1,
                     symbol = ''H''\<rparr>)]"
    by (simp add: atoms_eval sample_eval text_eval)
  note T = C9_unit_normalization[OF h1 h2 h3 h4 h5]
  have 1: "parse_atoms_data sample ?raw_ang = parse_atoms_data sample ?raw_au"
    using T by blast
  have a: "parse_atoms_data sample ?raw_ang = atoms_comprehension sample ?ang []"
    using T by blast
  have 2: "parse_atoms_data sample ?raw_au =
     Inr [(''atom_0'', \<lparr>coord = [0, 0, 0], mass = 1008 / 1000, sort_field = 0, symbol = ''H''\<rparr>),
        (''atom_1'', \<lparr>coord = [0, 0, 10584 / 10000], mass = 1008 / 1000, sort_field = 1,
                     symbol = ''H''\<rparr>)]"
    by (simp only: 1[symmetric] a c)
  show ?thesis
    by (rule conjI[OF h4 conjI[OF h5 conjI[OF 1 2]]])
qed

section \<open>Properties of the mode extractor\<close>

lemma mode_line_fields:
  assumes "split_ws l = [x, y, z]"
    and "py_float E x = Some fx" and "py_float E y = Some fy" and "py_float E z = Some fz"
  shows "mode_line E l = Inr [fx, 0, fy, 0, fz, 0]"
  using assms by (simp add: mode_line_def to_float_def)

lemma mode_line_shape:
  assumes "mode_line E l = Inr v"
  shows "length v = 6 \<and> v ! 1 = 0 \<and> v ! 3 = 0 \<and> v ! 5 = 0"
proof -
  from assms obtain x y z where s: "split_ws l = [x, y, z]"
    by (auto simp: mode_line_def split: list.splits)
  from assms s obtain fx where x: "to_float E x = Inr fx"
    by (cases "to_float E x") (auto simp: mode_line_def)
  from assms s x obtain fy where y: "to_float E y = Inr fy"
    by (cases "to_float E y") (auto simp: mode_line_def)
  from assms s x y obtain fz where z: "to_float E z = Inr fz"
    by (cases "to_float E z") (auto simp: mode_line_def)
  from assms s x y z have "v = [fx, 0, fy, 0, fz, 0]"
    by (simp add: mode_line_def)
  then show ?thesis by simp
qed

lemma modes_loop_atoms:
  assumes "\<forall>l\<in>set g. \<not> sublist ''vibration'' l \<and> \<not> isl (mode_line E l)"
  shows "modes_loop E (g @ rest) acc cur =
           modes_loop E rest acc (cur @ map (\<lambda>l. projr (mode_line E l)) g)"
  using assms
proof (induction g arbitrary: cur)
  case Nil
  then show ?case by simp
next
  case (Cons l g)
  then obtain v where "mode_line E l = Inr v"
    by (cases "mode_line E l") auto
  then show ?case using Cons by simp
qed

lemma modes_loop_groups:
  assumes "gs \<noteq> []"
    and "length ds = length gs"
    and "\<forall>d\<in>set ds. sublist ''vibration'' d"
    and "\<forall>g\<in>set gs. g \<noteq> [] \<and> (\<forall>l\<in>set g. \<not> sublist ''vibration'' l \<and> \<not> isl (mode_line E l))"
  shows "modes_loop E (concat (map2 (#) ds gs)) acc cur =
           Inr (acc @ (if cur = [] then [] else [cur]) @
                  map (map (\<lambda>l. projr (mode_line E l))) (butlast gs),
                map (\<lambda>l. projr (mode_line E l)) (last gs))"
  using assms
proof (induction gs arbitrary: ds acc cur rule: list_nonempty_induct)
  case (single g)
  then obtain d where ds: "ds = [d]" by (cases ds) auto
  with single have d: "sublist ''vibration'' d" by simp
  have g: "\<forall>l\<in>set g. \<not> sublist ''vibration'' l \<and> \<not> isl (mode_line E l)"
    using single by simp
  show ?case
    using d modes_loop_atoms[OF g, of "[]"] by (simp add: ds)
next
  case (cons g gs)
  then obtain d ds' where ds: "ds = d # ds'" by (cases ds) auto
  with cons.prems have d: "sublist ''vibration'' d" by simp
  have g: "\<forall>l\<in>set g. \<not> sublist ''vibration'' l \<and> \<not> isl (mode_line E l)"
    and gne: "g \<noteq> []"
    using cons.prems by simp_all
  have len: "length ds' = length gs" using cons.prems ds by simp
  have dv: "\<forall>d\<in>set ds'. sublist ''vibration'' d" using cons.prems ds by simp
  have wf: "\<forall>g\<in>set gs. g \<noteq> [] \<and> (\<forall>l\<in>set g. \<not> sublist ''vibration'' l \<and> \<not> isl (mode_line E l))"
    using cons.prems by simp
  note IH = cons.IH[OF len dv wf]
  show ?case
    using d gne cons.hyps modes_loop_atoms[OF g, of "concat (map2 (#) ds' gs)"]
    by (simp add: ds IH)
qed

lemma same_length_all: "\<forall>u\<in>set xss. length u = n \<Longrightarrow> same_length xss"
  by (cases xss) (auto simp: same_length_def list_all_iff)

lemma parse_displacements_groups:
  assumes raw: "map_of raw_data (Some ''[FR-NORM-COORD]'') = Some (Some (concat (map2 (#) ds gs)))"
    and ne: "gs \<noteq> []"
    and len: "length ds = length gs"
    and dv: "\<forall>d\<in>set ds. sublist ''vibration'' d"
    and K: "0 < K"
    and wf: "\<forall>g\<in>set gs. length g = K \<and>
               (\<forall>l\<in>set g. \<not> sublist ''vibration'' l \<and> \<not> isl (mode_line E l))"
  shows "parse_displacements E raw_data =
           Inr [map (\<lambda>a. map (\<lambda>g. projr (mode_line E (g ! a))) gs) [0..<K]]"
proof -
  let ?e = "\<lambda>l. projr (mode_line E l)"
  let ?modes = "map (map ?e) gs"
  have wf': "\<forall>g\<in>set gs. g \<noteq> [] \<and> (\<forall>l\<in>set g. \<not> sublist ''vibration'' l \<and> \<not> isl (mode_line E l))"
    using wf K by auto
  have loop: "modes_loop E (concat (map2 (#) ds gs)) [] [] =
                Inr (map (map ?e) (butlast gs), map ?e (last gs))"
    using modes_loop_groups[OF ne len dv wf', of "[]" "[]"] by simp
  have fin: "map (map ?e) (butlast gs) @ [map ?e (last gs)] = ?modes"
    using ne by (metis append_butlast_last_id list.simps(8,9) map_append)
  obtain g0 gs' where gs: "gs = g0 # gs'" using ne by (cases gs) auto
  have six: "length (?e l) = 6" if "g \<in> set gs" "l \<in> set g" for g l
  proof -
    from that wf have "\<not> isl (mode_line E l)" by blast
    then obtain v where "mode_line E l = Inr v"
      by (cases "mode_line E l") auto
    then show ?thesis using mode_line_shape[of E l v] by simp
  qed
  have s1: "same_length ?modes"
    using wf by (simp add: same_length_def gs list_all_iff)
  have "\<forall>u\<in>set (concat ?modes). length u = 6"
    using six by auto
  then have s2: "same_length (concat ?modes)"
    by (rule same_length_all)
  have arr: "np_asarray ?modes = Inr ?modes"
    using s1 s2 by (simp add: np_asarray_def)
  have g0: "length g0 = K" using wf gs by simp
  have sw: "swapaxes (expand_dims ?modes) =
              Inr [map (\<lambda>i. map (\<lambda>g'. g' ! i) ?modes) [0..<K]]"
    using g0 by (simp add: expand_dims_def swap_block_def gs)
  have "map (\<lambda>i. map (\<lambda>g'. g' ! i) ?modes) [0..<K] =
        map (\<lambda>a. map (\<lambda>g. ?e (g ! a)) gs) [0..<K]"
    using wf by (auto simp: map_eq_conv)
  with sw have sw': "swapaxes (expand_dims ?modes) =
              Inr [map (\<lambda>a. map (\<lambda>g. ?e (g ! a)) gs) [0..<K]]"
    by simp
  show ?thesis
    using raw loop fin arr sw'
    by (simp add: parse_displacements_def dict_get_def)
qed

text \<open>
  C1. The section is the concatenation of M groups, each a delimiter line containing
  \<open>vibration\<close> followed by K atom lines (K positive) that parse. Then the extractor returns
  an array with one k-point whose entry at atom \<open>a\<close> and mode \<open>m\<close> is the sequence
  \<open>[x, 0, y, 0, z, 0]\<close> of the three numbers read from atom line \<open>a\<close> of group \<open>m\<close>: the
  atom axis comes before the mode axis.
\<close>

theorem C1_axis_swap:
  assumes "map_of raw_data (Some ''[FR-NORM-COORD]'') = Some (Some (concat (map2 (#) ds gs)))"
    and "gs \<noteq> []"
    and "length ds = length gs"
    and "\<forall>d\<in>set ds. sublist ''vibration'' d"
    and "0 < K"
    and "\<forall>g\<in>set gs. length g = K \<and>
           (\<forall>l\<in>set g. \<not> sublist ''vibration'' l \<and> \<not> isl (mode_line E l))"
    and "a < K"
    and "m < length gs"
    and "split_ws (gs ! m ! a) = [x, y, z]"
    and "py_float E x = Some fx"
    and "py_float E y = Some fy"
    and "py_float E z = Some fz"
  shows "\<exists>out. parse_displacements E raw_data = Inr out \<and> length out = 1 \<and>
               out ! 0 ! a ! m = [fx, 0, fy, 0, fz, 0]"
proof -
  let ?out = "[map (\<lambda>a. map (\<lambda>g. projr (mode_line E (g ! a))) gs) [0..<K]]"
  have p: "parse_displacements E raw_data = Inr ?out"
    using assms(1-6) by (rule parse_displacements_groups)
  have "?out ! 0 ! a ! m = projr (mode_line E (gs ! m ! a))"
    using assms(7,8) by simp
  also have "\<dots> = [fx, 0, fy, 0, fz, 0]"
    using mode_line_fields[OF assms(9-12)] by simp
  finally show ?thesis using p by simp
qed

theorem C1_axis_swap_witness:
  "parse_displacements sample
     [(Some ''[FR-NORM-COORD]'',
       Some [''vibration 1'', ''0.5 0.5 0.5'', ''1.0 2.0 3.0'', ''4.0 5.0 6.0'',
             ''vibration 2'', ''7.0 8.0 9.0'', ''10.0 11.0 12.0'', ''0.25 0.25 0.25''])] =
   Inr [[[[1 / 2, 0, 1 / 2, 0, 1 / 2, 0], [7, 0, 8, 0, 9, 0]],
         [[1, 0, 2, 0, 3, 0], [10, 0, 11, 0, 12, 0]],
         [[4, 0, 5, 0, 6, 0], [1 / 4, 0, 1 / 4, 0, 1 / 4, 0]]]] \<and>
   (\<exists>out. parse_displacements sample
     [(Some ''[FR-NORM-COORD]'',
       Some [''vibration 1'', ''0.5 0.5 0.5'', ''1.0 2.0 3.0'', ''4.0 5.0 6.0'',
             ''vibration 2'', ''7.0 8.0 9.0'', ''10.0 11.0 12.0'', ''0.25 0.25 0.25''])] = Inr out \<and>
      length out = 1 \<and> out ! 0 ! 1 ! 0 = [1, 0, 2, 0, 3, 0])"
proof -
  let ?ds = "[''vibration 1'', ''vibration 2'']"
  let ?gs = "[[''0.5 0.5 0.5'', ''1.0 2.0 3.0'', ''4.0 5.0 6.0''],
              [''7.0 8.0 9.0'', ''10.0 11.0 12.0'', ''0.25 0.25 0.25'']]"
  let ?raw = "[(Some ''[FR-NORM-COORD]'',
       Some [''vibration 1'', ''0.5 0.5 0.5'', ''1.0 2.0 3.0'', ''4.0 5.0 6.0'',
             ''vibration 2'', ''7.0 8.0 9.0'', ''10.0 11.0 12.0'', ''0.25 0.25 0.25''])]"
  have h1: "map_of ?raw (Some ''[FR-NORM-COORD]'') = Some (Some (concat (map2 (#) ?ds ?gs)))"
    by simp
  have h2: "?gs \<noteq> []" by simp
  have h3: "length ?ds = length ?gs" by simp
  have h4: "\<forall>d\<in>set ?ds. sublist ''vibration'' d" by (simp add: sublist_code)
  have h5: "0 < (3::nat)" by simp
  have h6: "\<forall>g\<in>set ?gs. length g = 3 \<and>
           (\<forall>l\<in>set g. \<not> sublist ''vibration'' l \<and> \<not> isl (mode_line sample l))"
    by (simp add: sample_eval text_eval)
  have h7: "(1::nat) < 3" by simp
  have h8: "0 < length ?gs" by simp
  have h9: "split_ws (?gs ! 0 ! 1) = [''1.0'', ''2.0'', ''3.0'']" by (simp add: text_eval)
  have h10: "py_float sample ''1.0'' = Some 1" by (simp add: sample_eval)
  have h11: "py_float sample ''2.0'' = Some 2" by (simp add: sample_eval)
  have h12: "py_float sample ''3.0'' = Some 3" by (simp add: sample_eval)
  have r: "parse_displacements sample ?raw =
   Inr [[[[1 / 2, 0, 1 / 2, 0, 1 / 2, 0], [7, 0, 8, 0, 9, 0]],
         [[1, 0, 2, 0, 3, 0], [10, 0, 11, 0, 12, 0]],
         [[4, 0, 5, 0, 6, 0], [1 / 4, 0, 1 / 4, 0, 1 / 4, 0]]]]"
    by (simp add: parse_displacements_def dict_get_def sample_eval text_eval
        np_asarray_def same_length_def expand_dims_def swap_block_def)
  from C1_axis_swap[OF h1 h2 h3 h4 h5 h6 h7 h8 h9 h10 h11 h12] r show ?thesis
    by blast
qed

lemma parse_k_points_data_displacements:
  assumes "parse_k_points_data E raw_data = Inr r"
  shows "parse_displacements E raw_data = Inr (atomic_displacements r)"
  using assms
  by (auto simp: parse_k_points_data_def and_then_Inr split: option.splits)

lemma floats_length: "floats E ls = Inr fs \<Longrightarrow> length fs = length ls"
  by (induction ls arbitrary: fs) (auto simp: and_then_Inr)

lemma groups_shape:
  assumes wf: "\<forall>g\<in>set gs. length g = K \<and>
               (\<forall>l\<in>set g. \<not> sublist ''vibration'' l \<and> \<not> isl (mode_line E l))"
    and a: "a < K" and m: "m < length gs"
  shows "length (projr (mode_line E (gs ! m ! a))) = 6 \<and>
         projr (mode_line E (gs ! m ! a)) ! 1 = 0 \<and>
         projr (mode_line E (gs ! m ! a)) ! 3 = 0 \<and>
         projr (mode_line E (gs ! m ! a)) ! 5 = 0"
proof -
  have g: "gs ! m \<in> set gs" using m by simp
  with wf a have "gs ! m ! a \<in> set (gs ! m)" by simp
  with wf g have "\<not> isl (mode_line E (gs ! m ! a))" by blast
  then obtain v where v: "mode_line E (gs ! m ! a) = Inr v"
    by (cases "mode_line E (gs ! m ! a)") auto
  from mode_line_shape[OF v] show ?thesis by (simp add: v)
qed

text \<open>
  C5. For a section of M groups of K parsing atom lines each (a delimiter line before
  each group, K positive), the array returned by \<open>_parse_displacements\<close>, which is the
  \<open>atomic_displacements\<close> of the mode extractor whenever that returns, has shape
  \<open>[1][K][M][6]\<close>, and its components at positions 1, 3 and 5 are zero.
\<close>

theorem C5_displacement_shape:
  assumes "map_of raw_data (Some ''[FR-NORM-COORD]'') = Some (Some (concat (map2 (#) ds gs)))"
    and "gs \<noteq> []"
    and "length ds = length gs"
    and "\<forall>d\<in>set ds. sublist ''vibration'' d"
    and "0 < K"
    and "\<forall>g\<in>set gs. length g = K \<and>
           (\<forall>l\<in>set g. \<not> sublist ''vibration'' l \<and> \<not> isl (mode_line E l))"
  shows "\<exists>out. parse_displacements E raw_data = Inr out \<and>
           (\<forall>r. parse_k_points_data E raw_data = Inr r \<longrightarrow> atomic_displacements r = out) \<and>
           length out = 1 \<and> length (out ! 0) = K \<and>
           (\<forall>a<K. length (out ! 0 ! a) = length gs \<and>
              (\<forall>m<length gs. length (out ! 0 ! a ! m) = 6 \<and>
                 out ! 0 ! a ! m ! 1 = 0 \<and> out ! 0 ! a ! m ! 3 = 0 \<and> out ! 0 ! a ! m ! 5 = 0))"
proof -
  let ?out = "[map (\<lambda>a. map (\<lambda>g. projr (mode_line E (g ! a))) gs) [0..<K]]"
  have p: "parse_displacements E raw_data = Inr ?out"
    using assms by (rule parse_displacements_groups)
  have k: "\<forall>r. parse_k_points_data E raw_data = Inr r \<longrightarrow> atomic_displacements r = ?out"
    using p parse_k_points_data_displacements by fastforce
  have s: "\<forall>a<K. length (?out ! 0 ! a) = length gs \<and>
              (\<forall>m<length gs. length (?out ! 0 ! a ! m) = 6 \<and>
                 ?out ! 0 ! a ! m ! 1 = 0 \<and> ?out ! 0 ! a ! m ! 3 = 0 \<and> ?out ! 0 ! a ! m ! 5 = 0)"
    using groups_shape[OF assms(6)] by simp
  show ?thesis
    using p k s by (intro exI[of _ ?out]) simp
qed

theorem C5_displacement_shape_witness:
  "\<exists>out. parse_displacements sample
            [(Some ''[FREQ]'', Some [''4500.0'']),
             (Some ''[FR-NORM-COORD]'', Some [''vibration 1'', ''0.0 0.0 0.1'', ''0.0 0.0 -0.1''])] =
          Inr out \<and>
     parse_k_points_data sample
            [(Some ''[FREQ]'', Some [''4500.0'']),
             (Some ''[FR-NORM-COORD]'', Some [''vibration 1'', ''0.0 0.0 0.1'', ''0.0 0.0 -0.1''])] =
          Inr \<lparr>frequencies = [[4500]], atomic_displacements = out, weights = [1],
               k_vectors = [[0, 0, 0]], unit_cell = [[0, 0, 0], [0, 0, 0], [0, 0, 0]]\<rparr> \<and>
     length out = 1 \<and> length (out ! 0) = 2 \<and> length (out ! 0 ! 1) = 1 \<and>
     length (out ! 0 ! 1 ! 0) = 6 \<and>
     out ! 0 ! 1 ! 0 ! 1 = 0 \<and> out ! 0 ! 1 ! 0 ! 3 = 0 \<and> out ! 0 ! 1 ! 0 ! 5 = 0"
proof -
  let ?ds = "[''vibration 1'']"
  let ?gs = "[[''0.0 0.0 0.1'', ''0.0 0.0 -0.1'']]"
  let ?raw = "[(Some ''[FREQ]'', Some [''4500.0'']),
             (Some ''[FR-NORM-COORD]'', Some [''vibration 1'', ''0.0 0.0 0.1'', ''0.0 0.0 -0.1''])]"
  have h1: "map_of ?raw (Some ''[FR-NORM-COORD]'') = Some (Some (concat (map2 (#) ?ds ?gs)))"
    by simp
  have h2: "?gs \<noteq> []" by simp
  have h3: "length ?ds = length ?gs" by simp
  have h4: "\<forall>d\<in>set ?ds. sublist ''vibration'' d" by (simp add: sublist_code)
  have h5: "0 < (2::nat)" by simp
  have h6: "\<forall>g\<in>set ?gs. length g = 2 \<and>
           (\<forall>l\<in>set g. \<not> sublist ''vibration'' l \<and> \<not> isl (mode_line sample l))"
    by (simp add: sample_eval text_eval)
  from C5_displacement_shape[OF h1 h2 h3 h4 h5 h6] obtain out where
    p: "parse_displacements sample ?raw = Inr out"
    and k: "\<forall>r. parse_k_points_data sample ?raw = Inr r \<longrightarrow> atomic_displacements r = out"
    and n: "length out = 1" "length (out ! 0) = 2"
    and s: "\<forall>a<2. length (out ! 0 ! a) = length ?gs \<and>
              (\<forall>m<length ?gs. length (out ! 0 ! a ! m) = 6 \<and>
                 out ! 0 ! a ! m ! 1 = 0 \<and> out ! 0 ! a ! m ! 3 = 0 \<and> out ! 0 ! a ! m ! 5 = 0)"
    by blast
  have f: "floats sample [''4500.0''] = Inr [4500]"
    by (simp add: sample_eval)
  have q: "parse_k_points_data sample ?raw =
          Inr \<lparr>frequencies = [[4500]], atomic_displacements = out, weights = [1],
               k_vectors = [[0, 0, 0]], unit_cell = [[0, 0, 0], [0, 0, 0], [0, 0, 0]]\<rparr>"
    using p f by (simp add: parse_k_points_data_def dict_get_def)
  from s have "length (out ! 0 ! 1) = 1 \<and> length (out ! 0 ! 1 ! 0) = 6 \<and>
     out ! 0 ! 1 ! 0 ! 1 = 0 \<and> out ! 0 ! 1 ! 0 ! 3 = 0 \<and> out ! 0 ! 1 ! 0 ! 5 = 0"
    by simp
  with p q n show ?thesis by (intro exI[of _ out]) simp
qed

text \<open>
  C8 (amended). The mode extractor compares no counts: when the frequency lines parse
  and the normal-coordinates section has M groups of K parsing atom lines, it returns
  a record with all the frequencies and with M on the mode axis, whether or not the
  number of frequencies is M.
\<close>

theorem C8_no_consistency_check:
  assumes "map_of raw_data (Some ''[FR-NORM-COORD]'') = Some (Some (concat (map2 (#) ds gs)))"
    and "gs \<noteq> []"
    and "length ds = length gs"
    and "\<forall>d\<in>set ds. sublist ''vibration'' d"
    and "0 < K"
    and "\<forall>g\<in>set gs. length g = K \<and>
           (\<forall>l\<in>set g. \<not> sublist ''vibration'' l \<and> \<not> isl (mode_line E l))"
    and "map_of raw_data (Some ''[FREQ]'') = Some (Some fl)"
    and "floats E fl = Inr fs"
  shows "\<exists>r. parse_k_points_data E raw_data = Inr r \<and>
           frequencies r = [fs] \<and> length fs = length fl \<and>
           length (atomic_displacements r) = 1 \<and>
           length (atomic_displacements r ! 0) = K \<and>
           (\<forall>a<K. length (atomic_displacements r ! 0 ! a) = length gs)"
proof -
  let ?out = "[map (\<lambda>a. map (\<lambda>g. projr (mode_line E (g ! a))) gs) [0..<K]]"
  have p: "parse_displacements E raw_data = Inr ?out"
    using assms(1-6) by (rule parse_displacements_groups)
  have "parse_k_points_data E raw_data =
          Inr \<lparr>frequencies = [fs], atomic_displacements = ?out, weights = [1],
               k_vectors = [[0, 0, 0]], unit_cell = [[0, 0, 0], [0, 0, 0], [0, 0, 0]]\<rparr>"
    using assms(7,8) p by (simp add: parse_k_points_data_def dict_get_def)
  then show ?thesis
    using floats_length[OF assms(8)] by simp
qed

theorem C8_no_consistency_check_witness:
  "\<exists>r. parse_k_points_data sample
          [(Some ''[FR-NORM-COORD]'',
            Some [''vibration 1'', ''0.0 0.0 1.0'', ''vibration 2'', ''0.0 1.0 0.0'']),
           (Some ''[FREQ]'', Some [''100.0'', ''200.0'', ''300.0''])] = Inr r \<and>
        frequencies r = [[100, 200, 300]] \<and>
        length [100, 200, 300 :: rat] = 3 \<and>
        length (atomic_displacements r) = 1 \<and>
        length (atomic_displacements r ! 0) = 1 \<and>
        length (atomic_displacements r ! 0 ! 0) = 2"
proof -
  let ?ds = "[''vibration 1'', ''vibration 2'']"
  let ?gs = "[[''0.0 0.0 1.0''], [''0.0 1.0 0.0'']]"
  let ?raw = "[(Some ''[FR-NORM-COORD]'',
            Some [''vibration 1'', ''0.0 0.0 1.0'', ''vibration 2'', ''0.0 1.0 0.0'']),
           (Some ''[FREQ]'', Some [''100.0'', ''200.0'', ''300.0''])]"
  have h1: "map_of ?raw (Some ''[FR-NORM-COORD]'') = Some (Some (concat (map2 (#) ?ds ?gs)))"
    by simp
  have h2: "?gs \<noteq> []" by simp
  have h3: "length ?ds = length ?gs" by simp
  have h4: "\<forall>d\<in>set ?ds. sublist ''vibration'' d" by (simp add: sublist_code)
  have h5: "0 < (1::nat)" by simp
  have h6: "\<forall>g\<in>set ?gs. length g = 1 \<and>
           (\<forall>l\<in>set g. \<not> sublist ''vibration'' l \<and> \<not> isl (mode_line sample l))"
    by (simp add: sample_eval text_eval)
  have h7: "map_of ?raw (Some ''[FREQ]'') = Some (Some [''100.0'', ''200.0'', ''300.0''])"
    by simp
  have h8: "floats sample [''100.0'', ''200.0'', ''300.0''] = Inr [100, 200, 300]"
    by (simp add: sample_eval)
  from C8_no_consistency_check[OF h1 h2 h3 h4 h5 h6 h7 h8] obtain r where
    "parse_k_points_data sample ?raw = Inr r" "frequencies r = [[100, 200, 300]]"
    "length (atomic_displacements r) = 1" "length (atomic_displacements r ! 0) = 1"
    "\<forall>a<1. length (atomic_displacements r ! 0 ! a) = length ?gs"
    by blast
  then show ?thesis by (intro exI[of _ r]) simp
qed

text \<open>
  Two frequencies and one mode group: the extractor returns a record, with two
  frequencies and a mode axis of length one.
\<close>

theorem C8_count_mismatch_counterexample:
  "parse_k_points_data sample
     [(Some ''[FREQ]'', Some [''1.0'', ''2.0'']),
      (Some ''[FR-NORM-COORD]'', Some [''vibration 1'', ''0.0 0.0 1.0''])] =
   Inr \<lparr>frequencies = [[1, 2]], atomic_displacements = [[[[0, 0, 0, 0, 1, 0]]]],
        weights = [1], k_vectors = [[0, 0, 0]],
        unit_cell = [[0, 0, 0], [0, 0, 0], [0, 0, 0]]\<rparr> \<and>
   length (frequencies \<lparr>frequencies = [[1, 2 :: rat]],
        atomic_displacements = [[[[0, 0, 0, 0, 1, 0]]]],
        weights = [1], k_vectors = [[0, 0, 0]],
        unit_cell = [[0, 0, 0], [0, 0, 0], [0, 0, 0]]\<rparr> ! 0) = 2 \<and>
   length (atomic_displacements \<lparr>frequencies = [[1, 2 :: rat]],
        atomic_displacements = [[[[0, 0, 0, 0, 1, 0]]]],
        weights = [1], k_vectors = [[0, 0, 0]],
        unit_cell = [[0, 0, 0], [0, 0, 0], [0, 0, 0]]\<rparr> ! 0 ! 0) = 1"
  by (simp add: parse_k_points_data_def parse_displacements_def dict_get_def sample_eval
      text_eval np_asarray_def same_length_def expand_dims_def swap_block_def)

section \<open>Missing sections\<close>

text \<open>
  C7 (amended). With both atoms keys absent the geometry extractor raises \<open>KeyError\<close>;
  with \<open>[FREQ]\<close> absent the mode extractor raises \<open>KeyError\<close>; with
  \<open>[FR-NORM-COORD]\<close> absent \<open>_parse_displacements\<close> raises \<open>KeyError\<close> and the mode
  extractor returns no record, and the error it raises is that \<open>KeyError\<close> when the
  frequency lines parse (they are parsed first). The Bohr section is used whenever it
  is present, whatever else the block set holds. When an extractor fails the
  conversion returns no record.
\<close>

theorem C7_missing_sections:
  "(map_of raw_data (Some ''[Atoms] AU'') = None \<and> map_of raw_data (Some ''[Atoms] Angs'') = None
      \<longrightarrow> parse_atoms_data E raw_data = Inl (KeyError ''[Atoms] Angs'')) \<and>
   (map_of raw_data (Some ''[FREQ]'') = None
      \<longrightarrow> parse_k_points_data E raw_data = Inl (KeyError ''[FREQ]'')) \<and>
   (map_of raw_data (Some ''[FR-NORM-COORD]'') = None
      \<longrightarrow> parse_displacements E raw_data = Inl (KeyError ''[FR-NORM-COORD]'') \<and>
          isl (parse_k_points_data E raw_data)) \<and>
   (map_of raw_data (Some ''[FR-NORM-COORD]'') = None \<and>
    map_of raw_data (Some ''[FREQ]'') = Some (Some fl) \<and> floats E fl = Inr fs
      \<longrightarrow> parse_k_points_data E raw_data = Inl (KeyError ''[FR-NORM-COORD]'')) \<and>
   (map_of raw_data (Some ''[Atoms] AU'') = Some (Some la)
      \<longrightarrow> parse_atoms_data E raw_data =
          and_then (atoms_comprehension E la []) (\<lambda>d. Inr (map (convert_coord E) d))) \<and>
   (check_first_line fd = Inr fd' \<and> read_blocks fd' = Inr raw_data \<and>
    (isl (parse_atoms_data E raw_data) \<or> isl (parse_k_points_data E raw_data))
      \<longrightarrow> isl (convert E fd))"
proof (intro conjI impI)
  assume "map_of raw_data (Some ''[Atoms] AU'') = None \<and> map_of raw_data (Some ''[Atoms] Angs'') = None"
  then show "parse_atoms_data E raw_data = Inl (KeyError ''[Atoms] Angs'')"
    by (simp add: parse_atoms_data_def select_atoms_def dict_get_def)
next
  assume "map_of raw_data (Some ''[FREQ]'') = None"
  then show "parse_k_points_data E raw_data = Inl (KeyError ''[FREQ]'')"
    by (simp add: parse_k_points_data_def dict_get_def)
next
  assume a: "map_of raw_data (Some ''[FR-NORM-COORD]'') = None"
  then show d: "parse_displacements E raw_data = Inl (KeyError ''[FR-NORM-COORD]'')"
    by (simp add: parse_displacements_def dict_get_def)
  show "isl (parse_k_points_data E raw_data)"
  proof (cases "parse_k_points_data E raw_data")
    case (Inr r)
    from parse_k_points_data_displacements[OF this] d show ?thesis by simp
  qed simp
next
  assume "map_of raw_data (Some ''[FR-NORM-COORD]'') = None \<and>
    map_of raw_data (Some ''[FREQ]'') = Some (Some fl) \<and> floats E fl = Inr fs"
  then show "parse_k_points_data E raw_data = Inl (KeyError ''[FR-NORM-COORD]'')"
    by (simp add: parse_k_points_data_def parse_displacements_def dict_get_def)
next
  assume "map_of raw_data (Some ''[Atoms] AU'') = Some (Some la)"
  then show "parse_atoms_data E raw_data =
          and_then (atoms_comprehension E la []) (\<lambda>d. Inr (map (convert_coord E) d))"
    by (simp add: parse_atoms_data_def select_atoms_def dict_get_def)
next
  assume "check_first_line fd = Inr fd' \<and> read_blocks fd' = Inr raw_data \<and>
    (isl (parse_atoms_data E raw_data) \<or> isl (parse_k_points_data E raw_data))"
  then show "isl (convert E fd)"
    by (cases "parse_atoms_data E raw_data"; cases "parse_k_points_data E raw_data")
       (auto simp: convert_def)
qed

theorem C7_missing_sections_witness:
  "parse_atoms_data sample [(Some ''[FREQ]'', Some [''1.0''])] = Inl (KeyError ''[Atoms] Angs'') \<and>
   parse_k_points_data sample [] = Inl (KeyError ''[FREQ]'') \<and>
   parse_displacements sample [(Some ''[FREQ]'', Some [''1.0''])] =
     Inl (KeyError ''[FR-NORM-COORD]'') \<and>
   parse_k_points_data sample [(Some ''[FREQ]'', Some [''1.0''])] =
     Inl (KeyError ''[FR-NORM-COORD]'') \<and>
   parse_atoms_data sample
     [(Some ''[Atoms] Angs'', Some [''H 1 1 0.0 0.0 1.0'']),
      (Some ''[Atoms] AU'', Some [''O 1 8 0.0 0.0 2.0''])] =
     Inr [(''atom_0'', \<lparr>coord = [0, 0, 2 * (5292 / 10000)], mass = 15999 / 1000,
                          sort_field = 0, symbol = ''O''\<rparr>)] \<and>
   isl (convert sample [''[Molden Format]'', ''[FREQ]'', ''1.0''])"
proof -
  let ?raw = "[(Some ''[FREQ]'', Some [''1.0''])] :: raw_blocks"
  let ?two = "[(Some ''[Atoms] Angs'', Some [''H 1 1 0.0 0.0 1.0'']),
      (Some ''[Atoms] AU'', Some [''O 1 8 0.0 0.0 2.0''])] :: raw_blocks"
  let ?fd = "[''[Molden Format]'', ''[FREQ]'', ''1.0'']"
  have a: "map_of ?raw (Some ''[Atoms] AU'') = None \<and> map_of ?raw (Some ''[Atoms] Angs'') = None"
    by simp
  have b: "map_of ([] :: raw_blocks) (Some ''[FREQ]'') = None" by simp
  have c: "map_of ?raw (Some ''[FR-NORM-COORD]'') = None" by simp
  have d: "map_of ?raw (Some ''[FR-NORM-COORD]'') = None \<and>
           map_of ?raw (Some ''[FREQ]'') = Some (Some [''1.0'']) \<and>
           floats sample [''1.0''] = Inr [1]"
    by (simp add: sample_eval)
  have e: "map_of ?two (Some ''[Atoms] AU'') = Some (Some [''O 1 8 0.0 0.0 2.0''])"
    by simp
  have ac: "and_then (atoms_comprehension sample [''O 1 8 0.0 0.0 2.0''] [])
              (\<lambda>d. Inr (map (convert_coord sample) d)) =
            Inr [(''atom_0'', \<lparr>coord = [0, 0, 2 * (5292 / 10000)], mass = 15999 / 1000,
                          sort_field = 0, symbol = ''O''\<rparr>)]"
    by (simp add: atoms_eval sample_eval text_eval)
  have f1: "check_first_line ?fd = Inr [''[FREQ]'', ''1.0'']"
    by (simp add: check_first_line_def molden_header_def text_eval)
  have f2: "read_blocks [''[FREQ]'', ''1.0''] = Inr ?raw"
    by (simp add: read_blocks_def text_eval)
  note T = C7_missing_sections[of ?raw sample "[''1.0'']" "[1]" "[]" ?fd "[''[FREQ]'', ''1.0'']"]
  have 1: "parse_atoms_data sample ?raw = Inl (KeyError ''[Atoms] Angs'')"
    using T a by blast
  have 2: "parse_k_points_data sample [] = Inl (KeyError ''[FREQ]'')"
    using C7_missing_sections[of "[]" sample] b by blast
  have 3: "parse_displacements sample ?raw = Inl (KeyError ''[FR-NORM-COORD]'')"
    using T c by blast
  have 4: "parse_k_points_data sample ?raw = Inl (KeyError ''[FR-NORM-COORD]'')"
    using T d by blast
  have 5: "parse_atoms_data sample ?two =
     Inr [(''atom_0'', \<lparr>coord = [0, 0, 2 * (5292 / 10000)], mass = 15999 / 1000,
                          sort_field = 0, symbol = ''O''\<rparr>)]"
    using C7_missing_sections[of ?two sample _ _ "[''O 1 8 0.0 0.0 2.0'']"] e ac by simp
  have 6: "isl (convert sample ?fd)"
    using T f1 f2 1 by simp
  show ?thesis
    by (rule conjI[OF 1 conjI[OF 2 conjI[OF 3 conjI[OF 4 conjI[OF 5 6]]]]])
qed

text \<open>
  A block set without \<open>[FR-NORM-COORD]\<close> whose frequency line does not parse: the mode
  extractor raises the \<open>ValueError\<close> of \<open>float\<close>, not a lookup failure.
\<close>

theorem C7_malformed_freq_counterexample:
  "map_of [(Some ''[FREQ]'', Some [''abc''])] (Some ''[FR-NORM-COORD]'') = None \<and>
   parse_k_points_data sample [(Some ''[FREQ]'', Some [''abc''])] = Inl (ValueError ''float'')"
  by (simp add: parse_k_points_data_def dict_get_def sample_eval)

end
